theory Spec2Isabelle
  imports Complex_Main "HOL-Library.Multiset" "HOL-Library.List_Lexorder"
begin

section \<open>JavaScript strings\<close>

text \<open>
  A JavaScript string is a sequence of UTF-16 code units; \<open>length\<close>, \<open>slice\<close>,
  \<open>lastIndexOf\<close> and \<open>trim\<close> all count code units. A code unit is modelled by its
  number, and a string by the list of its code units. ASCII literals are written
  \<open>js ''abc''\<close>.
\<close>

type_synonym js_string = "nat list"

abbreviation (input) js :: "string \<Rightarrow> js_string" where
  "js s \<equiv> map of_char s"

definition LF :: nat where "LF = 10"
definition CR :: nat where "CR = 13"

text \<open>
  The code units that \<open>String.prototype.trim\<close> strips: the ECMAScript WhiteSpace
  and LineTerminator productions.
\<close>

definition is_ws :: "nat \<Rightarrow> bool" where
  "is_ws c \<longleftrightarrow>
     c = 9 \<or> c = 10 \<or> c = 11 \<or> c = 12 \<or> c = 13 \<or> c = 32 \<or> c = 160 \<or> c = 5760 \<or>
     (8192 \<le> c \<and> c \<le> 8202) \<or> c = 8232 \<or> c = 8233 \<or> c = 8239 \<or> c = 8287 \<or>
     c = 12288 \<or> c = 65279"

definition trim :: "js_string \<Rightarrow> js_string" where
  "trim s = rev (dropWhile is_ws (rev (dropWhile is_ws s)))"

text \<open>
  \<open>s.slice(a, b)\<close>: a negative index counts from the end of the string, both indices
  are clamped to \<open>[0, length]\<close>, and the result is empty when the clamped end does not
  lie after the clamped start.
\<close>

definition js_slice :: "js_string \<Rightarrow> int \<Rightarrow> int \<Rightarrow> js_string" where
  "js_slice s a b =
     (let len = int (length s);
          from = (if a < 0 then max (len + a) 0 else min a len);
          to = (if b < 0 then max (len + b) 0 else min b len)
      in take (nat (to - from)) (drop (nat from) s))"

text \<open>
  \<open>s.lastIndexOf(pat, pos)\<close>: the position is clamped to \<open>[0, length s - length pat]\<close>;
  the result is the largest index not after it at which \<open>pat\<close> occurs, or \<open>-1\<close>.
\<close>

definition matches_at :: "js_string \<Rightarrow> js_string \<Rightarrow> nat \<Rightarrow> bool" where
  "matches_at s pat k \<longleftrightarrow> take (length pat) (drop k s) = pat"

fun last_match :: "js_string \<Rightarrow> js_string \<Rightarrow> nat \<Rightarrow> int" where
  "last_match s pat 0 = (if matches_at s pat 0 then 0 else -1)"
| "last_match s pat (Suc k) =
     (if matches_at s pat (Suc k) then int (Suc k) else last_match s pat k)"

definition js_lastIndexOf :: "js_string \<Rightarrow> js_string \<Rightarrow> int \<Rightarrow> int" where
  "js_lastIndexOf s pat pos =
     (if length s < length pat then -1
      else last_match s pat (nat (min (max pos 0) (int (length s) - int (length pat)))))"

section \<open>The chunker (parser.ts, splitIntoChunks)\<close>

text \<open>\<open>text.replace(/\r\n/g, '\n')\<close>: every CR LF pair, scanned left to right, becomes LF.\<close>

fun replace_crlf :: "js_string \<Rightarrow> js_string" where
  "replace_crlf [] = []"
| "replace_crlf [x] = [x]"
| "replace_crlf (x # y # xs) =
     (if x = CR \<and> y = LF then LF # replace_crlf xs else x # replace_crlf (y # xs))"

text \<open>
  \<open>.replace(/\n{3,}/g, '\n\n')\<close>: the quantifier is greedy, so every maximal run of
  three or more LF becomes two LF; shorter runs are kept.
\<close>

function collapse_newlines :: "js_string \<Rightarrow> js_string" where
  "collapse_newlines [] = []"
| "collapse_newlines (x # xs) =
     (if x = LF then
        (let run = takeWhile (\<lambda>c. c = LF) (x # xs);
             rest = dropWhile (\<lambda>c. c = LF) (x # xs)
         in (if 3 \<le> length run then [LF, LF] else run) @ collapse_newlines rest)
      else x # collapse_newlines xs)"
  by pat_completeness auto
termination
  by (relation "measure length") (auto simp: less_Suc_eq_le length_dropWhile_le)

definition cleanText :: "js_string \<Rightarrow> js_string" where
  "cleanText text = trim (collapse_newlines (replace_crlf text))"

text \<open>
  The boundary search of one iteration. \<open>chunkSize / 2\<close> is a JavaScript number
  division, so for an odd \<open>chunkSize\<close> the midpoint is a half-integer; the comparison
  \<open>p > start + chunkSize / 2\<close> is written \<open>2 * p > 2 * start + chunkSize\<close>.
\<close>

definition snap_end :: "js_string \<Rightarrow> int \<Rightarrow> int \<Rightarrow> int" where
  "snap_end clean chunkSize start =
     (let end = start + chunkSize in
      if end < int (length clean) then
        (let paragraphEnd = js_lastIndexOf clean [LF, LF] end in
         if 2 * paragraphEnd > 2 * start + chunkSize then paragraphEnd
         else
           (let sentenceEnd = js_lastIndexOf clean [46, 32] end in
            if 2 * sentenceEnd > 2 * start + chunkSize then sentenceEnd + 1 else end))
      else end)"

text \<open>
  The \<open>while\<close> loop. It may run forever, so the loop is a partial function into
  \<open>option\<close>: \<open>None\<close> is the run that never leaves the loop.
\<close>

partial_function (option) chunk_loop ::
  "js_string \<Rightarrow> int \<Rightarrow> int \<Rightarrow> int \<Rightarrow> js_string list \<Rightarrow> js_string list option" where
  "chunk_loop clean chunkSize overlap start chunks =
     (if start < int (length clean) then
        (let end = snap_end clean chunkSize start;
             chunk = trim (js_slice clean start end);
             chunks' = (if chunk \<noteq> [] then chunks @ [chunk] else chunks);
             start' = end - overlap
         in if start' \<ge> int (length clean) - overlap then Some chunks'
            else chunk_loop clean chunkSize overlap start' chunks')
      else Some chunks)"

definition splitIntoChunks :: "js_string \<Rightarrow> int \<Rightarrow> int \<Rightarrow> js_string list option" where
  "splitIntoChunks text chunkSize overlap =
     (let clean = cleanText text in
      if int (length clean) \<le> chunkSize then Some [clean]
      else chunk_loop clean chunkSize overlap 0 [])"

text \<open>A string is blank when it is empty or holds only whitespace.\<close>

definition blank :: "js_string \<Rightarrow> bool" where
  "blank s \<longleftrightarrow> (\<forall>c \<in> set s. is_ws c)"

section \<open>Values shared by the modules\<close>

text \<open>
  An exception is a value: a function that can throw returns \<open>js_error + 'a\<close>, with
  \<open>Inl\<close> for the exception. \<open>LibraryError\<close> and \<open>FsError\<close> are the failures of code
  that is not part of the repository (the vector-store client, the document
  extractors, the file system).
\<close>

datatype js_error =
    UnsupportedFormat js_string
  | EmbeddingApiError nat js_string
  | FsError js_string js_string
  | LibraryError js_string

text \<open>The decimal rendering of a number inside a template literal.\<close>

function show_nat :: "nat \<Rightarrow> js_string" where
  "show_nat n = (if n < 10 then [48 + n] else show_nat (n div 10) @ [48 + n mod 10])"
  by pat_completeness auto
termination
  by (relation "measure id") auto

declare show_nat.simps [simp del]

definition error_message :: "js_error \<Rightarrow> js_string" where
  "error_message e =
     (case e of
        UnsupportedFormat ext \<Rightarrow> js ''Unsupported file format: '' @ ext
      | EmbeddingApiError status body \<Rightarrow>
          js ''Embedding API error: '' @ show_nat status @ js '' - '' @ body
      | FsError code path \<Rightarrow> code @ js '': '' @ path
      | LibraryError msg \<Rightarrow> msg)"

text \<open>\<open>s.split(c)\<close> for a one-character separator, and \<open>xs.join(sep)\<close>.\<close>

fun split_on :: "nat \<Rightarrow> js_string \<Rightarrow> js_string list" where
  "split_on c [] = [[]]"
| "split_on c (x # xs) =
     (if x = c then [] # split_on c xs
      else (case split_on c xs of [] \<Rightarrow> [[x]] | p # ps \<Rightarrow> (x # p) # ps))"

fun js_join :: "js_string \<Rightarrow> js_string list \<Rightarrow> js_string" where
  "js_join sep [] = []"
| "js_join sep [x] = x"
| "js_join sep (x # y # ys) = x @ sep @ js_join sep (y # ys)"

definition startsWith :: "js_string \<Rightarrow> js_string \<Rightarrow> bool" where
  "startsWith s p \<longleftrightarrow> take (length p) s = p"

text \<open>
  \<open>toLowerCase\<close> on the ASCII letters; other code units are kept. None of the
  extensions compared against contains a letter that a non-ASCII character lowers to.
\<close>

definition toLowerCase :: "js_string \<Rightarrow> js_string" where
  "toLowerCase s = map (\<lambda>c. if 65 \<le> c \<and> c \<le> 90 then c + 32 else c) s"

subsection \<open>The path module, for POSIX paths\<close>

text \<open>
  Node's \<open>path\<close> functions on the paths the program builds: absolute, normalised,
  separated by \<open>/\<close>.
\<close>

definition SEP :: nat where "SEP = 47"
definition DOT :: nat where "DOT = 46"

definition path_basename :: "js_string \<Rightarrow> js_string" where
  "path_basename p =
     rev (takeWhile (\<lambda>c. c \<noteq> SEP) (dropWhile (\<lambda>c. c = SEP) (rev p)))"

text \<open>
  \<open>path.extname\<close> of a name: from the last dot on, and empty when there is no dot,
  when the last dot is the first character, or when the name is \<open>..\<close>.
\<close>

definition ext_of :: "js_string \<Rightarrow> js_string" where
  "ext_of name =
     (let after = takeWhile (\<lambda>c. c \<noteq> DOT) (rev name);
          before = rev (drop (length after + 1) (rev name))
      in if DOT \<notin> set name \<or> before = [] \<or> name = [DOT, DOT] then []
         else DOT # rev after)"

definition path_extname :: "js_string \<Rightarrow> js_string" where
  "path_extname p = ext_of (path_basename p)"

definition path_basename_ext :: "js_string \<Rightarrow> js_string \<Rightarrow> js_string" where
  "path_basename_ext p ext =
     (let b = path_basename p in
      if ext \<noteq> [] \<and> b \<noteq> ext \<and> length ext \<le> length b \<and> drop (length b - length ext) b = ext
      then take (length b - length ext) b else b)"

definition path_join :: "js_string \<Rightarrow> js_string \<Rightarrow> js_string" where
  "path_join dir name = dir @ [SEP] @ name"

definition path_components :: "js_string \<Rightarrow> js_string list" where
  "path_components p = filter (\<lambda>c. c \<noteq> []) (split_on SEP p)"

fun common_prefix_length :: "'a list \<Rightarrow> 'a list \<Rightarrow> nat" where
  "common_prefix_length (x # xs) (y # ys) =
     (if x = y then Suc (common_prefix_length xs ys) else 0)"
| "common_prefix_length _ _ = 0"

definition path_relative :: "js_string \<Rightarrow> js_string \<Rightarrow> js_string" where
  "path_relative from to =
     (let f = path_components from; t = path_components to;
          n = common_prefix_length f t
      in js_join [SEP] (replicate (length f - n) [DOT, DOT] @ drop n t))"

subsection \<open>The file system\<close>

text \<open>
  The directory tree as \<open>readdirSync\<close> with \<open>withFileTypes\<close> shows it: an entry is a
  regular file, a directory, or something that is neither (a symbolic link, a socket).
  A file or a directory can be unreadable; reading it then throws.
\<close>

type_synonym bytes = "nat list"

datatype fs_node =
    RegularFile bool bytes
  | Directory bool "(js_string \<times> fs_node) list"
  | Special

fun isDirectory :: "fs_node \<Rightarrow> bool" where
  "isDirectory (Directory _ _) = True"
| "isDirectory _ = False"

fun isFile :: "fs_node \<Rightarrow> bool" where
  "isFile (RegularFile _ _) = True"
| "isFile _ = False"

fun fs_lookup :: "fs_node \<Rightarrow> js_string list \<Rightarrow> fs_node option" where
  "fs_lookup node [] = Some node"
| "fs_lookup node (c # cs) =
     (case node of
        Directory _ entries \<Rightarrow>
          (case map_of entries c of None \<Rightarrow> None | Some child \<Rightarrow> fs_lookup child cs)
      | _ \<Rightarrow> None)"

definition existsSync :: "fs_node \<Rightarrow> js_string \<Rightarrow> bool" where
  "existsSync tree p \<longleftrightarrow> fs_lookup tree (path_components p) \<noteq> None"

definition readFileSync :: "fs_node \<Rightarrow> js_string \<Rightarrow> js_error + bytes" where
  "readFileSync tree p =
     (case fs_lookup tree (path_components p) of
        None \<Rightarrow> Inl (FsError (js ''ENOENT'') p)
      | Some (RegularFile readable data) \<Rightarrow>
          if readable then Inr data else Inl (FsError (js ''EACCES'') p)
      | Some (Directory _ _) \<Rightarrow> Inl (FsError (js ''EISDIR'') p)
      | Some Special \<Rightarrow> Inl (FsError (js ''EACCES'') p))"

subsection \<open>The host environment\<close>

text \<open>
  What the program calls but does not define: the file system, the text extractors
  (mammoth, pdf-parse), UTF-8 decoding, \<open>Buffer\<close>'s base64url encoding, \<open>path.resolve\<close>
  (it depends on the working directory), \<open>uuidv4\<close> (the n-th identifier it hands
  out), and the embedding endpoint, which answers the n-th request for a batch.
\<close>

type_synonym vector = "real list"

record embedding_item =
  embedding :: vector
  index :: int

datatype embed_response =
    EmbedOk "embedding_item list"
  | EmbedFailed nat js_string

record runtime =
  fs :: fs_node
  decode_utf8 :: "bytes \<Rightarrow> js_string"
  extractRawText :: "bytes \<Rightarrow> js_error + js_string"
  pdfParse :: "bytes \<Rightarrow> js_error + js_string"
  base64url :: "js_string \<Rightarrow> js_string"
  path_resolve :: "js_string \<Rightarrow> js_string"
  uuid_of :: "nat \<Rightarrow> js_string"
  embed_backend :: "nat \<Rightarrow> js_string list \<Rightarrow> embed_response"

text \<open>The values of \<open>CONFIG.knowledge\<close> that the modules read.\<close>

record config =
  cfg_chunkSize :: int
  cfg_chunkOverlap :: int
  cfg_collectionName :: js_string
  cfg_embeddingDimension :: nat
  cfg_documentsPath :: js_string

section \<open>The document parser (parser.ts)\<close>

record chunk_metadata =
  documentId :: js_string
  documentName :: js_string
  documentPath :: js_string
  chunkIndex :: nat
  totalChunks :: nat
  category :: "js_string option"
  title :: "js_string option"

record document_chunk =
  chunk_id :: js_string
  content :: js_string
  metadata :: chunk_metadata

definition parseDocument :: "runtime \<Rightarrow> js_string \<Rightarrow> js_error + js_string" where
  "parseDocument rt filePath =
     (let ext = toLowerCase (path_extname filePath) in
      if ext = js ''.docx'' \<or> ext = js ''.doc'' then
        (case readFileSync (fs rt) filePath of
           Inl e \<Rightarrow> Inl e | Inr buffer \<Rightarrow> extractRawText rt buffer)
      else if ext = js ''.pdf'' then
        (case readFileSync (fs rt) filePath of
           Inl e \<Rightarrow> Inl e | Inr buffer \<Rightarrow> pdfParse rt buffer)
      else if ext = js ''.txt'' \<or> ext = js ''.md'' then
        (case readFileSync (fs rt) filePath of
           Inl e \<Rightarrow> Inl e | Inr buffer \<Rightarrow> Inr (decode_utf8 rt buffer))
      else Inl (UnsupportedFormat ext))"

definition extractTitle :: "js_string \<Rightarrow> js_string \<Rightarrow> js_string" where
  "extractTitle text fileName =
     (case filter (\<lambda>l. trim l \<noteq> []) (split_on LF text) of
        [] \<Rightarrow> fileName
      | l # _ \<Rightarrow>
          (let firstLine = trim l in
           if length firstLine \<le> 100 then firstLine
           else js_slice firstLine 0 97 @ js ''...''))"

definition generateDocumentId :: "runtime \<Rightarrow> js_string \<Rightarrow> js_string" where
  "generateDocumentId rt filePath =
     (let normalized = map (\<lambda>c. if c = 92 then 47 else c) filePath;
          hash = js_slice (base64url rt normalized) 0 12;
          name = js_slice
            (map (\<lambda>c. if (97 \<le> c \<and> c \<le> 122) \<or> (48 \<le> c \<and> c \<le> 57) then c else 45)
               (toLowerCase (path_basename_ext filePath (path_extname filePath)))) 0 30
      in name @ js ''-'' @ hash)"

definition extractCategory :: "js_string \<Rightarrow> js_string \<Rightarrow> js_string option" where
  "extractCategory filePath basePath =
     (let parts = split_on SEP (path_relative basePath filePath) in
      if length parts > 1 then Some (hd parts) else None)"

text \<open>
  \<open>parseAndChunkDocument\<close> calls the chunker with the configured defaults. The result
  is \<open>None\<close> when the chunker does not return, \<open>Some (Inl e)\<close> when parsing throws.
\<close>

definition parseAndChunkDocument ::
  "runtime \<Rightarrow> config \<Rightarrow> js_string \<Rightarrow> js_string \<Rightarrow> (js_error + document_chunk list) option" where
  "parseAndChunkDocument rt cfg filePath basePath =
     (case parseDocument rt filePath of
        Inl e \<Rightarrow> Some (Inl e)
      | Inr text \<Rightarrow>
          (let docId = generateDocumentId rt filePath;
               docName = path_basename filePath;
               cat = extractCategory filePath basePath;
               ttl = extractTitle text docName
           in case splitIntoChunks text (cfg_chunkSize cfg) (cfg_chunkOverlap cfg) of
                None \<Rightarrow> None
              | Some textChunks \<Rightarrow>
                  Some (Inr (map (\<lambda>(i, chunk).
                    \<lparr> chunk_id = docId @ js ''-chunk-'' @ show_nat i,
                      content = chunk,
                      metadata = \<lparr> documentId = docId, documentName = docName,
                        documentPath = filePath, chunkIndex = i,
                        totalChunks = length textChunks,
                        category = cat, title = Some ttl \<rparr> \<rparr>)
                    (enumerate 0 textChunks)))))"

text \<open>
  \<open>findDocuments\<close>. \<open>scanDir\<close> reads a directory and visits its entries in order,
  appending to the shared \<open>documents\<close> array; \<open>readdirSync\<close> throws on a directory that
  cannot be read and on a path that is not a directory, and nothing catches it.
\<close>

definition supportedExtensions :: "js_string list" where
  "supportedExtensions = [js ''.docx'', js ''.doc'', js ''.pdf'', js ''.txt'', js ''.md'']"

fun scanDir :: "js_string \<Rightarrow> fs_node \<Rightarrow> js_string list \<Rightarrow> js_error + js_string list"
  and scanEntries ::
    "js_string \<Rightarrow> (js_string \<times> fs_node) list \<Rightarrow> js_string list \<Rightarrow> js_error + js_string list"
where
  "scanDir currentPath (Directory readable entries) documents =
     (if readable then scanEntries currentPath entries documents
      else Inl (FsError (js ''EACCES'') currentPath))"
| "scanDir currentPath (RegularFile _ _) documents = Inl (FsError (js ''ENOTDIR'') currentPath)"
| "scanDir currentPath Special documents = Inl (FsError (js ''ENOTDIR'') currentPath)"
| "scanEntries currentPath [] documents = Inr documents"
| "scanEntries currentPath ((name, node) # rest) documents =
     (let fullPath = path_join currentPath name in
      if isDirectory node then
        (if \<not> startsWith name (js ''.'') then
           (case scanDir fullPath node documents of
              Inl e \<Rightarrow> Inl e
            | Inr documents' \<Rightarrow> scanEntries currentPath rest documents')
         else scanEntries currentPath rest documents)
      else if isFile node then
        (let ext = toLowerCase (path_extname name) in
         if ext \<in> set supportedExtensions
         then scanEntries currentPath rest (documents @ [fullPath])
         else scanEntries currentPath rest documents)
      else scanEntries currentPath rest documents)"

definition findDocuments :: "fs_node \<Rightarrow> js_string \<Rightarrow> js_error + js_string list" where
  "findDocuments tree dirPath =
     (case fs_lookup tree (path_components dirPath) of
        Some node \<Rightarrow> scanDir dirPath node []
      | None \<Rightarrow> Inr [])"

section \<open>The vector store\<close>

text \<open>
  The payload that \<open>indexChunks\<close> writes with every point, and the store as its REST
  client shows it: named collections, each with its vector configuration, its payload
  indexes and its points in the order a scroll returns them. A store that cannot be
  reached rejects every call.
\<close>

record payload =
  p_chunkId :: js_string
  p_content :: js_string
  p_documentId :: js_string
  p_documentName :: js_string
  p_documentPath :: js_string
  p_chunkIndex :: nat
  p_totalChunks :: nat
  p_category :: "js_string option"
  p_title :: "js_string option"

record point =
  point_id :: js_string
  point_vector :: "vector option"
  point_payload :: payload

record collection =
  vectors_size :: nat
  vectors_distance :: js_string
  default_segment_number :: nat
  replication_factor :: nat
  payload_indexes :: "(js_string \<times> js_string) list"
  points :: "point list"

record qdrant =
  online :: bool
  collections :: "(js_string \<times> collection) list"

text \<open>
  The state the program changes: the store, the requests sent to the embedding
  endpoint so far, and how many identifiers \<open>uuidv4\<close> has handed out.
\<close>

record world =
  store :: qdrant
  embed_calls :: "js_string list list"
  uuid_next :: nat

subsection \<open>The client calls\<close>

definition unreachable :: js_error where
  "unreachable = LibraryError (js ''fetch failed'')"

definition getCollections :: "qdrant \<Rightarrow> js_error + js_string list" where
  "getCollections s = (if online s then Inr (map fst (collections s)) else Inl unreachable)"

definition q_createCollection ::
  "js_string \<Rightarrow> collection \<Rightarrow> qdrant \<Rightarrow> (js_error + unit) \<times> qdrant" where
  "q_createCollection name c s =
     (if \<not> online s then (Inl unreachable, s)
      else if name \<in> fst ` set (collections s) then (Inl (LibraryError (js ''Conflict'')), s)
      else (Inr (), s\<lparr>collections := collections s @ [(name, c)]\<rparr>))"

definition update_collection ::
  "js_string \<Rightarrow> (collection \<Rightarrow> collection) \<Rightarrow> qdrant \<Rightarrow> qdrant" where
  "update_collection name f s =
     s\<lparr>collections := map (\<lambda>(n, c). if n = name then (n, f c) else (n, c)) (collections s)\<rparr>"

definition createPayloadIndex ::
  "js_string \<Rightarrow> js_string \<Rightarrow> js_string \<Rightarrow> qdrant \<Rightarrow> (js_error + unit) \<times> qdrant" where
  "createPayloadIndex name field_name field_schema s =
     (if \<not> online s then (Inl unreachable, s)
      else if name \<notin> fst ` set (collections s) then (Inl (LibraryError (js ''Not Found'')), s)
      else (Inr (), update_collection name
              (\<lambda>c. c\<lparr>payload_indexes :=
                 filter (\<lambda>ix. fst ix \<noteq> field_name) (payload_indexes c) @
                 [(field_name, field_schema)]\<rparr>) s))"

definition q_deleteCollection :: "js_string \<Rightarrow> qdrant \<Rightarrow> (js_error + unit) \<times> qdrant" where
  "q_deleteCollection name s =
     (if \<not> online s then (Inl unreachable, s)
      else (Inr (), s\<lparr>collections := filter (\<lambda>nc. fst nc \<noteq> name) (collections s)\<rparr>))"

text \<open>
  An upsert replaces the point that has the same identifier and appends a new one. The
  store rejects a point without a vector or with a vector of another dimension.
\<close>

fun upsert_point :: "point \<Rightarrow> point list \<Rightarrow> point list" where
  "upsert_point p [] = [p]"
| "upsert_point p (q # qs) =
     (if point_id q = point_id p then p # qs else q # upsert_point p qs)"

definition acceptable :: "collection \<Rightarrow> point \<Rightarrow> bool" where
  "acceptable c p \<longleftrightarrow>
     (case point_vector p of None \<Rightarrow> False | Some v \<Rightarrow> length v = vectors_size c)"

definition upsert :: "js_string \<Rightarrow> point list \<Rightarrow> qdrant \<Rightarrow> (js_error + unit) \<times> qdrant" where
  "upsert name batch s =
     (if \<not> online s then (Inl unreachable, s)
      else case map_of (collections s) name of
             None \<Rightarrow> (Inl (LibraryError (js ''Not Found'')), s)
           | Some c \<Rightarrow>
               if list_all (acceptable c) batch
               then (Inr (), update_collection name
                       (\<lambda>c. c\<lparr>points := foldl (\<lambda>ps p. upsert_point p ps) (points c) batch\<rparr>) s)
               else (Inl (LibraryError (js ''Bad Request'')), s))"

text \<open>
  A scroll returns a page of at most \<open>limit\<close> matching points and the cursor of the
  next page, if there is one. The cursor is opaque to the program; here it is the
  number of matching points that the pages before it held, which is never \<open>0\<close>.
\<close>

datatype q_filter = NoFilter | MustMatch js_string js_string

definition field_value :: "payload \<Rightarrow> js_string \<Rightarrow> js_string option" where
  "field_value pl key =
     (if key = js ''documentId'' then Some (p_documentId pl)
      else if key = js ''category'' then p_category pl
      else None)"

fun matches :: "q_filter \<Rightarrow> point \<Rightarrow> bool" where
  "matches NoFilter p = True"
| "matches (MustMatch key v) p = (field_value (point_payload p) key = Some v)"

definition scroll ::
  "js_string \<Rightarrow> q_filter \<Rightarrow> nat \<Rightarrow> nat option \<Rightarrow> qdrant \<Rightarrow> js_error + (point list \<times> nat option)" where
  "scroll name flt limit offset s =
     (if \<not> online s then Inl unreachable
      else case map_of (collections s) name of
             None \<Rightarrow> Inl (LibraryError (js ''Not Found''))
           | Some c \<Rightarrow>
               (let start = (case offset of None \<Rightarrow> 0 | Some k \<Rightarrow> k);
                    hits = filter (matches flt) (points c)
                in Inr (take limit (drop start hits),
                        (if start + limit < length hits then Some (start + limit) else None))))"

definition getCollection :: "js_string \<Rightarrow> qdrant \<Rightarrow> js_error + (nat \<times> js_string)" where
  "getCollection name s =
     (if \<not> online s then Inl unreachable
      else case map_of (collections s) name of
             None \<Rightarrow> Inl (LibraryError (js ''Not Found''))
           | Some c \<Rightarrow> Inr (length (points c), js ''green''))"

section \<open>The embedding client (embeddings.ts)\<close>

text \<open>
  \<open>createEmbeddings\<close>: one request per batch of 100 texts; a response that is not ok
  throws; the items of a response are sorted by \<open>index\<close> (\<open>Array.prototype.sort\<close> is
  stable) and their vectors appended.
\<close>

function createEmbeddings_loop ::
  "runtime \<Rightarrow> js_string list \<Rightarrow> nat \<Rightarrow> vector list \<Rightarrow> world \<Rightarrow> (js_error + vector list) \<times> world" where
  "createEmbeddings_loop rt texts i allEmbeddings w =
     (if i < length texts then
        (let batch = take 100 (drop i texts);
             response = embed_backend rt (length (embed_calls w)) batch;
             w' = w\<lparr>embed_calls := embed_calls w @ [batch]\<rparr>
         in case response of
              EmbedFailed status body \<Rightarrow> (Inl (EmbeddingApiError status body), w')
            | EmbedOk data \<Rightarrow>
                (let sortedData = sort_key index data in
                 createEmbeddings_loop rt texts (i + 100)
                   (allEmbeddings @ map embedding sortedData) w'))
      else (Inr allEmbeddings, w))"
  by pat_completeness auto
termination
  by (relation "measure (\<lambda>(rt, texts, i, allEmbeddings, w). length texts - i)") auto

declare createEmbeddings_loop.simps [simp del]

definition createEmbeddings ::
  "runtime \<Rightarrow> js_string list \<Rightarrow> world \<Rightarrow> (js_error + vector list) \<times> world" where
  "createEmbeddings rt texts w =
     (if texts = [] then (Inr [], w) else createEmbeddings_loop rt texts 0 [] w)"

section \<open>The vector index (qdrant.ts)\<close>

text \<open>\<open>collectionExists\<close> catches every failure of the client and answers \<open>false\<close>.\<close>

definition collectionExists :: "config \<Rightarrow> world \<Rightarrow> bool" where
  "collectionExists cfg w =
     (case getCollections (store w) of
        Inl e \<Rightarrow> False
      | Inr names \<Rightarrow> list_ex (\<lambda>n. n = cfg_collectionName cfg) names)"

definition new_collection :: "config \<Rightarrow> collection" where
  "new_collection cfg =
     \<lparr> vectors_size = cfg_embeddingDimension cfg, vectors_distance = js ''Cosine'',
       default_segment_number = 2, replication_factor = 1,
       payload_indexes = [], points = [] \<rparr>"

definition createCollection :: "config \<Rightarrow> world \<Rightarrow> (js_error + unit) \<times> world" where
  "createCollection cfg w =
     (if collectionExists cfg w then (Inr (), w)
      else
        case q_createCollection (cfg_collectionName cfg) (new_collection cfg) (store w) of
          (Inl e, s1) \<Rightarrow> (Inl e, w\<lparr>store := s1\<rparr>)
        | (Inr _, s1) \<Rightarrow>
            (case createPayloadIndex (cfg_collectionName cfg) (js ''documentId'') (js ''keyword'') s1 of
               (Inl e, s2) \<Rightarrow> (Inl e, w\<lparr>store := s2\<rparr>)
             | (Inr _, s2) \<Rightarrow>
                 (case createPayloadIndex (cfg_collectionName cfg) (js ''category'') (js ''keyword'') s2 of
                    (Inl e, s3) \<Rightarrow> (Inl e, w\<lparr>store := s3\<rparr>)
                  | (Inr _, s3) \<Rightarrow> (Inr (), w\<lparr>store := s3\<rparr>))))"

definition deleteCollection :: "config \<Rightarrow> world \<Rightarrow> (js_error + unit) \<times> world" where
  "deleteCollection cfg w =
     (if collectionExists cfg w then
        (case q_deleteCollection (cfg_collectionName cfg) (store w) of
           (r, s1) \<Rightarrow> (r, w\<lparr>store := s1\<rparr>))
      else (Inr (), w))"

text \<open>
  \<open>indexChunks\<close>: \<open>embeddings[i]\<close> is \<open>undefined\<close> when the endpoint returned fewer
  vectors than texts; \<open>category || null\<close> and \<open>title || null\<close> turn an empty string
  into \<open>null\<close>.
\<close>

definition or_null :: "js_string option \<Rightarrow> js_string option" where
  "or_null v = (case v of None \<Rightarrow> None | Some s \<Rightarrow> if s = [] then None else Some s)"

function upsert_loop :: "config \<Rightarrow> point list \<Rightarrow> nat \<Rightarrow> world \<Rightarrow> (js_error + unit) \<times> world" where
  "upsert_loop cfg pts i w =
     (if i < length pts then
        (case upsert (cfg_collectionName cfg) (take 100 (drop i pts)) (store w) of
           (Inl e, s1) \<Rightarrow> (Inl e, w\<lparr>store := s1\<rparr>)
         | (Inr _, s1) \<Rightarrow> upsert_loop cfg pts (i + 100) (w\<lparr>store := s1\<rparr>))
      else (Inr (), w))"
  by pat_completeness auto
termination
  by (relation "measure (\<lambda>(cfg, pts, i, w). length pts - i)") auto

declare upsert_loop.simps [simp del]

definition indexChunks ::
  "runtime \<Rightarrow> config \<Rightarrow> document_chunk list \<Rightarrow> world \<Rightarrow> (js_error + unit) \<times> world" where
  "indexChunks rt cfg chunks w =
     (if chunks = [] then (Inr (), w)
      else
        case createEmbeddings rt (map content chunks) w of
          (Inl e, w1) \<Rightarrow> (Inl e, w1)
        | (Inr embeddings, w1) \<Rightarrow>
            (let pts = map (\<lambda>(i, chunk).
                   \<lparr> point_id = uuid_of rt (uuid_next w1 + i),
                     point_vector = (if i < length embeddings then Some (embeddings ! i) else None),
                     point_payload =
                       \<lparr> p_chunkId = chunk_id chunk, p_content = content chunk,
                         p_documentId = documentId (metadata chunk),
                         p_documentName = documentName (metadata chunk),
                         p_documentPath = documentPath (metadata chunk),
                         p_chunkIndex = chunkIndex (metadata chunk),
                         p_totalChunks = totalChunks (metadata chunk),
                         p_category = or_null (category (metadata chunk)),
                         p_title = or_null (title (metadata chunk)) \<rparr> \<rparr>)
                   (enumerate 0 chunks)
             in upsert_loop cfg pts 0 (w1\<lparr>uuid_next := uuid_next w1 + length chunks\<rparr>)))"

record search_result =
  r_content :: js_string
  r_score :: real
  r_documentId :: js_string
  r_documentName :: js_string
  r_documentPath :: js_string
  r_chunkIndex :: nat
  r_totalChunks :: nat
  r_category :: "js_string option"
  r_title :: "js_string option"

definition to_result :: "point \<Rightarrow> search_result" where
  "to_result r =
     \<lparr> r_content = p_content (point_payload r), r_score = 1,
       r_documentId = p_documentId (point_payload r),
       r_documentName = p_documentName (point_payload r),
       r_documentPath = p_documentPath (point_payload r),
       r_chunkIndex = p_chunkIndex (point_payload r),
       r_totalChunks = p_totalChunks (point_payload r),
       r_category = p_category (point_payload r),
       r_title = p_title (point_payload r) \<rparr>"

text \<open>
  \<open>getDocumentChunks\<close>: one scroll of at most 1000 points filtered by \<open>documentId\<close>,
  then \<open>sort((a, b) => a.chunkIndex - b.chunkIndex)\<close>.
\<close>

definition getDocumentChunks :: "config \<Rightarrow> js_string \<Rightarrow> world \<Rightarrow> js_error + search_result list" where
  "getDocumentChunks cfg docId w =
     (case scroll (cfg_collectionName cfg) (MustMatch (js ''documentId'') docId) 1000 None (store w) of
        Inl e \<Rightarrow> Inl e
      | Inr (results, _) \<Rightarrow> Inr (sort_key r_chunkIndex (map to_result results)))"

definition getStats :: "config \<Rightarrow> world \<Rightarrow> js_error + (nat \<times> js_string)" where
  "getStats cfg w =
     (if \<not> collectionExists cfg w then Inr (0, js ''not_created'')
      else getCollection (cfg_collectionName cfg) (store w))"

text \<open>
  \<open>listDocuments\<close>: scroll through the whole collection, 100 points a page, and keep
  the first payload seen of every \<open>documentId\<close>. \<open>seen\<close> is a JavaScript \<open>Map\<close>; its
  values come out in insertion order.
\<close>

record doc_entry =
  d_documentId :: js_string
  d_documentName :: js_string
  d_category :: "js_string option"
  d_title :: "js_string option"

definition note_point :: "(js_string \<times> doc_entry) list \<Rightarrow> point \<Rightarrow> (js_string \<times> doc_entry) list" where
  "note_point seen pt =
     (let docId = p_documentId (point_payload pt) in
      if docId \<in> fst ` set seen then seen
      else seen @ [(docId, \<lparr> d_documentId = docId,
                            d_documentName = p_documentName (point_payload pt),
                            d_category = p_category (point_payload pt),
                            d_title = p_title (point_payload pt) \<rparr>)])"

function listDocuments_loop ::
  "config \<Rightarrow> world \<Rightarrow> nat option \<Rightarrow> (js_string \<times> doc_entry) list \<Rightarrow> js_error + doc_entry list" where
  "listDocuments_loop cfg w offset seen =
     (case scroll (cfg_collectionName cfg) NoFilter 100 offset (store w) of
        Inl e \<Rightarrow> Inl e
      | Inr (results, next_page_offset) \<Rightarrow>
          (let seen' = foldl note_point seen results in
           case next_page_offset of
             None \<Rightarrow> Inr (map snd seen')
           | Some next \<Rightarrow> listDocuments_loop cfg w (Some next) seen'))"
  by pat_completeness auto
termination
  by (relation "measure (\<lambda>(cfg, w, offset, seen).
        (case map_of (collections (store w)) (cfg_collectionName cfg) of
           None \<Rightarrow> 0 | Some c \<Rightarrow> length (points c)) -
        (case offset of None \<Rightarrow> 0 | Some k \<Rightarrow> k))")
     (auto simp: scroll_def Let_def split: if_splits option.splits)

declare listDocuments_loop.simps [simp del]

definition listDocuments :: "config \<Rightarrow> world \<Rightarrow> js_error + doc_entry list" where
  "listDocuments cfg w =
     (if \<not> collectionExists cfg w then Inr [] else listDocuments_loop cfg w None [])"

text \<open>
  \<open>listCategories\<close>: the categories that are neither \<open>null\<close> nor empty, each once,
  sorted by \<open>Array.prototype.sort\<close>, which compares strings by code units.
\<close>

definition listCategories :: "config \<Rightarrow> world \<Rightarrow> js_error + js_string list" where
  "listCategories cfg w =
     (case listDocuments cfg w of
        Inl e \<Rightarrow> Inl e
      | Inr docs \<Rightarrow>
          Inr (sort (remdups (concat (map (\<lambda>doc.
                 case d_category doc of None \<Rightarrow> [] | Some c \<Rightarrow> if c = [] then [] else [c]) docs)))))"

section \<open>The knowledge tool (tools/knowledge.ts, executeGetInstruction)\<close>

record tool_result =
  tr_success :: bool
  tr_output :: "js_string option"
  tr_error :: "js_string option"

text \<open>The message texts, as UTF-16 code units.\<close>

definition header_icon :: js_string where
  "header_icon = [55357, 56516, 32, 42, 42]"

definition header_title :: js_string where
  "header_title = [1047, 1072, 1075, 1086, 1083, 1086, 1074, 1086, 1082, 58, 32]"

definition header_category :: js_string where
  "header_category = [1050, 1072, 1090, 1077, 1075, 1086, 1088, 1080, 1103, 58, 32]"

definition header_parts :: js_string where
  "header_parts = [1063, 1072, 1089, 1090, 1077, 1081, 58, 32]"

definition not_found_message :: "js_string \<Rightarrow> js_string" where
  "not_found_message docId =
     [1044, 1086, 1082, 1091, 1084, 1077, 1085, 1090, 32, 1089, 32, 73, 68, 32, 34] @ docId @
     [34, 32, 1085, 1077, 32, 1085, 1072, 1081, 1076, 1077, 1085]"

definition failure_message :: "js_error \<Rightarrow> js_string" where
  "failure_message e =
     [1054, 1096, 1080, 1073, 1082, 1072, 32, 1087, 1086, 1083, 1091, 1095, 1077, 1085, 1080,
      1103, 32, 1076, 1086, 1082, 1091, 1084, 1077, 1085, 1090, 1072, 58, 32] @ error_message e"

definition truthy :: "js_string option \<Rightarrow> bool" where
  "truthy v \<longleftrightarrow> (case v of None \<Rightarrow> False | Some s \<Rightarrow> s \<noteq> [])"

definition fullContent :: "search_result list \<Rightarrow> js_string" where
  "fullContent chunks = js_join [LF, LF] (map r_content chunks)"

definition header :: "search_result \<Rightarrow> js_string" where
  "header meta =
     js_join [LF]
       (filter (\<lambda>l. l \<noteq> [])
          [header_icon @ r_documentName meta @ js ''**'',
           (if truthy (r_title meta) then header_title @ the (r_title meta) else []),
           (if truthy (r_category meta) then header_category @ the (r_category meta) else []),
           header_parts @ show_nat (r_totalChunks meta)])"

definition executeGetInstruction :: "config \<Rightarrow> js_string \<Rightarrow> world \<Rightarrow> tool_result" where
  "executeGetInstruction cfg document_id w =
     (case getDocumentChunks cfg document_id w of
        Inl e \<Rightarrow> \<lparr> tr_success = False, tr_output = None, tr_error = Some (failure_message e) \<rparr>
      | Inr chunks \<Rightarrow>
          (case chunks of
             [] \<Rightarrow> \<lparr> tr_success = False, tr_output = None,
                     tr_error = Some (not_found_message document_id) \<rparr>
           | meta # _ \<Rightarrow>
               \<lparr> tr_success = True,
                 tr_output = Some (header meta @ [LF, LF] @ js ''---'' @ [LF, LF] @ fullContent chunks),
                 tr_error = None \<rparr>))"

section \<open>The ingestion tool (ingest.ts)\<close>

text \<open>\<open>getDocumentStats\<close>: \<open>docMap\<close> is a \<open>Map\<close> keyed by \<open>documentId\<close>.\<close>

record document_count =
  dc_name :: js_string
  dc_chunks :: nat
  dc_category :: "js_string option"

record document_stats =
  totalDocuments :: nat
  stats_totalChunks :: nat
  stats_categories :: "js_string list"
  stats_documents :: "document_count list"

fun count_chunk ::
  "(js_string \<times> document_count) list \<Rightarrow> document_chunk \<Rightarrow> (js_string \<times> document_count) list" where
  "count_chunk docMap chunk =
     (if documentId (metadata chunk) \<in> fst ` set docMap then
        map (\<lambda>(k, d). if k = documentId (metadata chunk)
                        then (k, d\<lparr>dc_chunks := dc_chunks d + 1\<rparr>) else (k, d)) docMap
      else docMap @ [(documentId (metadata chunk),
                      \<lparr> dc_name = documentName (metadata chunk), dc_chunks = 1,
                        dc_category = category (metadata chunk) \<rparr>)])"

definition getDocumentStats :: "document_chunk list \<Rightarrow> document_stats" where
  "getDocumentStats chunks =
     (let docMap = foldl count_chunk [] chunks;
          cats = remdups (concat (map (\<lambda>chunk.
                   if truthy (category (metadata chunk)) then [the (category (metadata chunk))]
                   else []) chunks))
      in \<lparr> totalDocuments = length docMap, stats_totalChunks = length chunks,
           stats_categories = sort cats, stats_documents = map snd docMap \<rparr>)"

text \<open>
  The loop over the documents found: a document whose parsing throws is reported and
  skipped. The result is \<open>None\<close> when the chunker does not return for one of them.
\<close>

fun parse_all ::
  "runtime \<Rightarrow> config \<Rightarrow> js_string \<Rightarrow> js_string list \<Rightarrow> document_chunk list \<Rightarrow>
   document_chunk list option" where
  "parse_all rt cfg absolutePath [] allChunks = Some allChunks"
| "parse_all rt cfg absolutePath (docPath # rest) allChunks =
     (case parseAndChunkDocument rt cfg docPath absolutePath of
        None \<Rightarrow> None
      | Some (Inl e) \<Rightarrow> parse_all rt cfg absolutePath rest allChunks
      | Some (Inr chunks) \<Rightarrow> parse_all rt cfg absolutePath rest (allChunks @ chunks))"

text \<open>
  \<open>main\<close>, with \<open>process.argv\<close> as its argument. It ends by \<open>process.exit(1)\<close>, or
  returns after it has printed the statistics of the chunks it indexed; an exception
  that leaves \<open>main\<close> is caught by the caller, which exits with status 1 as well.
  Console output is not modelled.
\<close>

datatype outcome = Exited nat | Completed document_stats

definition main :: "runtime \<Rightarrow> config \<Rightarrow> js_string list \<Rightarrow> world \<Rightarrow> (outcome \<times> world) option" where
  "main rt cfg argv w =
     (let docsPath = (if 2 < length argv \<and> argv ! 2 \<noteq> [] then argv ! 2 else cfg_documentsPath cfg);
          absolutePath = path_resolve rt docsPath;
          shouldReset = (js ''--reset'' \<in> set argv);
          (reset, w1) = (if shouldReset then deleteCollection cfg w else (Inr (), w))
      in case reset of
           Inl e \<Rightarrow> Some (Exited 1, w1)
         | Inr _ \<Rightarrow>
             (case findDocuments (fs rt) absolutePath of
                Inl e \<Rightarrow> Some (Exited 1, w1)
              | Inr documentPaths \<Rightarrow>
                  if documentPaths = [] then Some (Exited 1, w1)
                  else
                    (case createCollection cfg w1 of
                       (Inl e, w2) \<Rightarrow> Some (Exited 1, w2)
                     | (Inr _, w2) \<Rightarrow>
                         (case parse_all rt cfg absolutePath documentPaths [] of
                            None \<Rightarrow> None
                          | Some allChunks \<Rightarrow>
                              if allChunks = [] then Some (Exited 1, w2)
                              else
                                (let stats = getDocumentStats allChunks in
                                 case indexChunks rt cfg allChunks w2 of
                                   (Inl e, w3) \<Rightarrow> Some (Exited 1, w3)
                                 | (Inr _, w3) \<Rightarrow>
                                     (case getStats cfg w3 of
                                        Inl e \<Rightarrow> Some (Exited 1, w3)
                                      | Inr qdrantStats \<Rightarrow> Some (Completed stats, w3)))))))"

section \<open>Notions used in the statements\<close>

text \<open>
  A directory can be scanned when it is readable and so is every directory below it
  that the scan enters (the ones whose name does not start with a dot).
\<close>

fun scannable :: "fs_node \<Rightarrow> bool"
  and scannable_entries :: "(js_string \<times> fs_node) list \<Rightarrow> bool" where
  "scannable (Directory readable entries) \<longleftrightarrow> readable \<and> scannable_entries entries"
| "scannable (RegularFile _ _) \<longleftrightarrow> False"
| "scannable Special \<longleftrightarrow> False"
| "scannable_entries [] \<longleftrightarrow> True"
| "scannable_entries ((name, node) # rest) \<longleftrightarrow>
     (if isDirectory node \<and> \<not> startsWith name (js ''.'') then scannable node else True) \<and>
     scannable_entries rest"

text \<open>
  The response of the embedding endpoint to a batch, in the order of the batch: the
  vector of the j-th text carries the position marker j.
\<close>

definition labelled :: "(js_string \<Rightarrow> vector) \<Rightarrow> js_string list \<Rightarrow> embedding_item list" where
  "labelled emb batch = map (\<lambda>(j, t). \<lparr> embedding = emb t, index = int j \<rparr>) (enumerate 0 batch)"

subsection \<open>A host environment for concrete runs\<close>

text \<open>
  A small file system, text files in ASCII, extractors that reject every file, and an
  embedding endpoint that answers every batch in reverse order. \<open>base64url\<close> and
  \<open>path.resolve\<close> are the identity here: the paths used are absolute.
\<close>

definition sample_tree :: fs_node where
  "sample_tree = Directory True
     [(js ''docs'', Directory True
        [(js ''faq'', Directory True
            [(js ''returns.TXT'', RegularFile True (js ''abcd. efgh''))]),
         (js ''.git'', Directory False []),
         (js ''notes.md'', RegularFile True (js ''hello'')),
         (js ''image.png'', RegularFile True []),
         (js ''link'', Special)]),
      (js ''empty'', Directory True []),
      (js ''locked'', Directory False [])]"

definition sample_embedding :: "js_string \<Rightarrow> vector" where
  "sample_embedding t = [real (length t)]"

definition sample_runtime :: runtime where
  "sample_runtime =
     \<lparr> fs = sample_tree,
       decode_utf8 = (\<lambda>b. b),
       extractRawText = (\<lambda>b. Inl (LibraryError (js ''not a Word document''))),
       pdfParse = (\<lambda>b. Inl (LibraryError (js ''not a PDF document''))),
       base64url = (\<lambda>s. s),
       path_resolve = (\<lambda>p. p),
       uuid_of = (\<lambda>n. js ''point-'' @ show_nat n),
       embed_backend = (\<lambda>n batch. EmbedOk (rev (labelled sample_embedding batch))) \<rparr>"

definition sample_config :: config where
  "sample_config =
     \<lparr> cfg_chunkSize = 4, cfg_chunkOverlap = 0, cfg_collectionName = js ''knowledge'',
       cfg_embeddingDimension = 1, cfg_documentsPath = js ''/docs'' \<rparr>"

definition empty_world :: world where
  "empty_world = \<lparr> store = \<lparr> online = True, collections = [] \<rparr>, embed_calls = [], uuid_next = 0 \<rparr>"

text \<open>The chunks of \<open>/docs/faq/returns.TXT\<close> under the sample configuration.\<close>

definition sample_chunk :: "nat \<Rightarrow> js_string \<Rightarrow> document_chunk" where
  "sample_chunk i text =
     \<lparr> chunk_id = js ''returns-/docs/faq/re-chunk-'' @ show_nat i, content = text,
       metadata = \<lparr> documentId = js ''returns-/docs/faq/re'', documentName = js ''returns.TXT'',
         documentPath = js ''/docs/faq/returns.TXT'', chunkIndex = i, totalChunks = 3,
         category = Some (js ''faq''), title = Some (js ''abcd. efgh'') \<rparr> \<rparr>"

text \<open>
  The store after \<open>createCollection\<close> on the empty store, and a store whose collection
  holds the three chunks of one document in the order 2, 0, 1, with a chunk of another
  document between them.
\<close>

definition created_world :: world where
  "created_world =
     \<lparr> store = \<lparr> online = True, collections =
         [(js ''knowledge'',
           \<lparr> vectors_size = 1, vectors_distance = js ''Cosine'', default_segment_number = 2,
             replication_factor = 1,
             payload_indexes = [(js ''documentId'', js ''keyword''), (js ''category'', js ''keyword'')],
             points = [] \<rparr>)] \<rparr>,
       embed_calls = [], uuid_next = 0 \<rparr>"

definition sample_point :: "js_string \<Rightarrow> js_string \<Rightarrow> nat \<Rightarrow> nat \<Rightarrow> js_string \<Rightarrow> point" where
  "sample_point pid doc i n body =
     \<lparr> point_id = pid, point_vector = Some [1],
       point_payload =
         \<lparr> p_chunkId = doc @ js ''-chunk-'' @ show_nat i, p_content = body, p_documentId = doc,
           p_documentName = doc @ js ''.txt'', p_documentPath = js ''/docs/'' @ doc @ js ''.txt'',
           p_chunkIndex = i, p_totalChunks = n, p_category = None, p_title = Some (js ''T'') \<rparr> \<rparr>"

definition indexed_world :: world where
  "indexed_world =
     \<lparr> store = \<lparr> online = True, collections =
         [(js ''knowledge'',
           \<lparr> vectors_size = 1, vectors_distance = js ''Cosine'', default_segment_number = 2,
             replication_factor = 1,
             payload_indexes = [(js ''documentId'', js ''keyword''), (js ''category'', js ''keyword'')],
             points =
               [sample_point (js ''p1'') (js ''d1'') 2 3 (js ''three''),
                sample_point (js ''p2'') (js ''d2'') 0 1 (js ''other''),
                sample_point (js ''p3'') (js ''d1'') 0 3 (js ''one''),
                sample_point (js ''p4'') (js ''d1'') 1 3 (js ''two'')] \<rparr>)] \<rparr>,
       embed_calls = [], uuid_next = 4 \<rparr>"

section \<open>Properties of the string primitives\<close>

lemma trim_length: "length (trim s) \<le> length s"
proof -
  have "length (dropWhile is_ws (rev (dropWhile is_ws s))) \<le> length (rev (dropWhile is_ws s))"
    by (rule length_dropWhile_le)
  also have "\<dots> \<le> length s"
    by (simp add: length_dropWhile_le)
  finally show ?thesis by (simp add: trim_def)
qed

lemma trim_not_blank: "trim s \<noteq> [] \<Longrightarrow> \<not> blank (trim s)"
proof -
  assume ne: "trim s \<noteq> []"
  define t where "t = dropWhile is_ws (rev (dropWhile is_ws s))"
  from ne have "t \<noteq> []" by (simp add: trim_def t_def)
  then have "\<not> is_ws (hd t)" unfolding t_def by (rule hd_dropWhile)
  moreover from \<open>t \<noteq> []\<close> have "hd t \<in> set (trim s)" by (simp add: trim_def t_def)
  ultimately show ?thesis by (auto simp: blank_def)
qed

lemma last_match_bounds: "- 1 \<le> last_match s pat k \<and> last_match s pat k \<le> int k"
  by (induction k) auto

lemma last_match_unfold:
  "last_match s pat n =
     (if matches_at s pat n then int n else if n = 0 then - 1 else last_match s pat (n - 1))"
  by (cases n) auto

lemma js_lastIndexOf_lower: "- 1 \<le> js_lastIndexOf s pat pos"
  using last_match_bounds by (simp add: js_lastIndexOf_def)

lemma js_lastIndexOf_upper: "js_lastIndexOf s pat pos \<le> max pos 0"
proof (cases "length s < length pat")
  case True
  then show ?thesis by (simp add: js_lastIndexOf_def)
next
  case False
  let ?k = "nat (min (max pos 0) (int (length s) - int (length pat)))"
  have "last_match s pat ?k \<le> int ?k" using last_match_bounds by blast
  with False show ?thesis by (simp add: js_lastIndexOf_def)
qed

lemma js_slice_length:
  "int (length (js_slice s a b)) =
     max 0 ((if b < 0 then max (int (length s) + b) 0 else min b (int (length s)))
          - (if a < 0 then max (int (length s) + a) 0 else min a (int (length s))))"
proof -
  define len where "len = int (length s)"
  define "from" where "from = (if a < 0 then max (len + a) 0 else min a len)"
  define to where "to = (if b < 0 then max (len + b) 0 else min b len)"
  have fr: "0 \<le> from" "from \<le> len" and t: "0 \<le> to" "to \<le> len"
    by (auto simp: from_def to_def len_def)
  have "js_slice s a b = take (nat (to - from)) (drop (nat from) s)"
    by (simp add: js_slice_def Let_def from_def to_def len_def)
  then have "int (length (js_slice s a b)) = int (min (nat (to - from)) (length s - nat from))"
    by simp
  also have "\<dots> = max 0 (to - from)"
    using fr t unfolding len_def by linarith
  finally show ?thesis by (simp add: from_def to_def len_def)
qed

section \<open>The chunker\<close>

subsection \<open>The cut point of one iteration\<close>

text \<open>
  The end of a window is the raw end, an accepted paragraph break, or one past an
  accepted sentence terminator. A boundary is accepted only past the midpoint, and the
  sentence search is reached only when the paragraph search was rejected.
\<close>

lemma snap_end_cases:
  "(snap_end clean cs start = start + cs \<and>
      (int (length clean) \<le> start + cs \<or> - 2 \<le> 2 * start + cs))
   \<or> (start + cs < int (length clean) \<and> - 1 \<le> snap_end clean cs start \<and>
        snap_end clean cs start \<le> max (start + cs) 0 \<and>
        2 * start + cs < 2 * snap_end clean cs start)
   \<or> (start + cs < int (length clean) \<and> - 2 \<le> 2 * start + cs \<and>
        1 \<le> snap_end clean cs start \<and>
        snap_end clean cs start - 1 \<le> max (start + cs) 0 \<and>
        2 * start + cs < 2 * (snap_end clean cs start - 1))"
proof -
  define p where "p = js_lastIndexOf clean [LF, LF] (start + cs)"
  define q where "q = js_lastIndexOf clean [46, 32] (start + cs)"
  have pb: "- 1 \<le> p" "p \<le> max (start + cs) 0"
    unfolding p_def by (rule js_lastIndexOf_lower, rule js_lastIndexOf_upper)
  have qb: "- 1 \<le> q" "q \<le> max (start + cs) 0"
    unfolding q_def by (rule js_lastIndexOf_lower, rule js_lastIndexOf_upper)
  have e: "snap_end clean cs start =
     (if start + cs < int (length clean) then
        (if 2 * p > 2 * start + cs then p
         else if 2 * q > 2 * start + cs then q + 1 else start + cs)
      else start + cs)"
    by (simp add: snap_end_def Let_def p_def q_def)
  show ?thesis
    unfolding e using pb qb by (auto split: if_splits)
qed

lemma snap_end_lower: "0 \<le> cs \<Longrightarrow> - 1 \<le> snap_end clean cs start"
  using snap_end_cases [of clean cs start] by (auto simp: max_def split: if_splits)

lemma chunk_bound:
  assumes "0 \<le> cs" "cs < int (length clean)" "- cs - 2 \<le> start"
  shows "int (length (js_slice clean start (snap_end clean cs start))) \<le> cs + 1"
  using assms snap_end_cases [of clean cs start]
  unfolding js_slice_length
  by (auto split: if_splits simp: max_def min_def)

lemma snap_end_strict_progress:
  "0 < cs \<Longrightarrow> 2 * start + cs < 2 * snap_end clean cs start"
  using snap_end_cases [of clean cs start] by (auto simp: max_def split: if_splits)

subsection \<open>Chunk length\<close>

text \<open>
  The invariant of the loop: the cursor is the initial \<open>0\<close> or an end minus the
  overlap, and an end is never below \<open>-1\<close>. A cursor below \<open>- chunkSize - 2\<close> can
  therefore only arise with an overlap of at least \<open>chunkSize + 2\<close>; with such an
  overlap the loop never returns from a cursor at or below \<open>- chunkSize - 2\<close>. From
  every cursor that is not below \<open>- chunkSize - 2\<close> the slice taken is at most
  \<open>chunkSize + 1\<close> long.
\<close>

lemma chunk_loop_bound_aux:
  assumes "chunk_loop clean cs ov start chunks = Some res"
  shows "0 \<le> cs \<and> cs < int (length clean) \<and> (start = 0 \<or> - 1 \<le> start + ov) \<longrightarrow>
         \<not> (start \<le> - cs - 2 \<and> cs + 2 \<le> ov) \<and>
         ((\<forall>c \<in> set chunks. int (length c) \<le> cs + 1) \<longrightarrow>
          (\<forall>c \<in> set res. int (length c) \<le> cs + 1))"
proof (rule chunk_loop.raw_induct [where P = "\<lambda>clean cs ov start chunks res.
         0 \<le> cs \<and> cs < int (length clean) \<and> (start = 0 \<or> - 1 \<le> start + ov) \<longrightarrow>
         \<not> (start \<le> - cs - 2 \<and> cs + 2 \<le> ov) \<and>
         ((\<forall>c \<in> set chunks. int (length c) \<le> cs + 1) \<longrightarrow>
          (\<forall>c \<in> set res. int (length c) \<le> cs + 1))", OF _ assms], goal_cases)
  case (1 f clean cs ov start chunks res)
  note IH = "1"(1) and prems = "1"(2)
  show ?case
  proof (intro impI)
    assume pre: "0 \<le> cs \<and> cs < int (length clean) \<and> (start = 0 \<or> - 1 \<le> start + ov)"
    define e where "e = snap_end clean cs start"
    define chunk where "chunk = trim (js_slice clean start e)"
    define chunks' where "chunks' = (if chunk \<noteq> [] then chunks @ [chunk] else chunks)"
    have step: "(if start < int (length clean) then
                  (if int (length clean) - ov \<le> e - ov then Some chunks'
                   else f clean cs ov (e - ov) chunks')
                 else Some chunks) = Some res"
      using prems unfolding Let_def e_def chunk_def chunks'_def .
    have e_lo: "- 1 \<le> e" using pre snap_end_lower by (simp add: e_def)
    have pre': "0 \<le> cs \<and> cs < int (length clean) \<and> (e - ov = 0 \<or> - 1 \<le> (e - ov) + ov)"
      using pre e_lo by simp
    show "\<not> (start \<le> - cs - 2 \<and> cs + 2 \<le> ov) \<and>
          ((\<forall>c \<in> set chunks. int (length c) \<le> cs + 1) \<longrightarrow>
           (\<forall>c \<in> set res. int (length c) \<le> cs + 1))"
    proof (cases "start \<le> - cs - 2 \<and> cs + 2 \<le> ov")
      case True
      have "e \<le> 0"
        using True pre snap_end_cases [of clean cs start] unfolding e_def by (auto simp: max_def split: if_splits)
      with True pre step have "f clean cs ov (e - ov) chunks' = Some res"
        by (auto split: if_splits)
      from IH [OF this] pre' have "\<not> (e - ov \<le> - cs - 2 \<and> cs + 2 \<le> ov)" by blast
      with True \<open>e \<le> 0\<close> show ?thesis by linarith
    next
      case False
      with pre have lo: "- cs - 2 \<le> start" by linarith
      have cb: "int (length chunk) \<le> cs + 1"
      proof -
        have "length chunk \<le> length (js_slice clean start e)"
          unfolding chunk_def by (rule trim_length)
        moreover have "int (length (js_slice clean start e)) \<le> cs + 1"
          unfolding e_def using pre lo by (intro chunk_bound) auto
        ultimately show ?thesis by linarith
      qed
      have "(\<forall>c \<in> set res. int (length c) \<le> cs + 1)"
        if ok: "\<forall>c \<in> set chunks. int (length c) \<le> cs + 1"
      proof -
        have ok': "\<forall>c \<in> set chunks'. int (length c) \<le> cs + 1"
          using ok cb by (auto simp: chunks'_def)
        show ?thesis
        proof (cases "start < int (length clean)")
          case outer: True
          show ?thesis
          proof (cases "int (length clean) - ov \<le> e - ov")
            case True
            with outer step have "res = chunks'" by simp
            with ok' show ?thesis by simp
          next
            case False
            with outer step have "f clean cs ov (e - ov) chunks' = Some res" by simp
            from IH [OF this] pre' ok' show ?thesis by blast
          qed
        next
          case False
          with step have "res = chunks" by simp
          with ok show ?thesis by simp
        qed
      qed
      with False show ?thesis by blast
    qed
  qed
qed

text \<open>
  C9: when the cleaned text is longer than the chunk size (a size, so not negative),
  every chunk that \<open>splitIntoChunks\<close> returns is at most \<open>chunkSize + 1\<close> code
  units long, whatever the overlap.
\<close>

theorem chunk_length_bound:
  assumes "0 \<le> chunkSize"
    and "chunkSize < int (length (cleanText text))"
    and "splitIntoChunks text chunkSize overlap = Some chunks"
  shows "\<forall>c \<in> set chunks. int (length c) \<le> chunkSize + 1"
proof -
  from assms have "chunk_loop (cleanText text) chunkSize overlap 0 [] = Some chunks"
    by (simp add: splitIntoChunks_def Let_def)
  from chunk_loop_bound_aux [OF this] assms(1,2) show ?thesis by simp
qed

lemmas chunker_eval =
  cleanText_def trim_def is_ws_def LF_def CR_def snap_end_def js_lastIndexOf_def
  matches_at_def js_slice_def last_match_unfold

theorem chunk_length_bound_witness:
  "splitIntoChunks (js ''abcd. efgh'') 4 0 = Some [js ''abcd.'', js ''efg'', js ''h''] \<and>
   int (length (js ''abcd.'')) \<le> 4 + 1 \<and> int (length (js ''efg'')) \<le> 4 + 1 \<and>
   int (length (js ''h'')) \<le> 4 + 1"
proof -
  have run: "splitIntoChunks (js ''abcd. efgh'') 4 0 = Some [js ''abcd.'', js ''efg'', js ''h'']"
    apply (simp add: splitIntoChunks_def chunker_eval)
    apply (subst chunk_loop.simps, simp add: chunker_eval)
    apply (subst chunk_loop.simps, simp add: chunker_eval)
    apply (subst chunk_loop.simps, simp add: chunker_eval)
    done
  have size: "(0::int) \<le> 4" and long: "4 < int (length (cleanText (js ''abcd. efgh'')))"
    by (simp_all add: chunker_eval)
  from chunk_length_bound [OF size long run] run show ?thesis by simp
qed

text \<open>The bound is reached: the sentence snap keeps the terminator.\<close>

lemma sentence_snap_reaches_bound:
  "\<exists>chunks c. splitIntoChunks (js ''abcd. efgh'') 4 0 = Some chunks \<and> c \<in> set chunks \<and>
     int (length c) = 4 + 1"
proof -
  have run: "splitIntoChunks (js ''abcd. efgh'') 4 0 = Some [js ''abcd.'', js ''efg'', js ''h'']"
    apply (simp add: splitIntoChunks_def chunker_eval)
    apply (subst chunk_loop.simps, simp add: chunker_eval)
    apply (subst chunk_loop.simps, simp add: chunker_eval)
    apply (subst chunk_loop.simps, simp add: chunker_eval)
    done
  show ?thesis
    unfolding run by (intro exI [of _ "[js ''abcd.'', js ''efg'', js ''h'']"] exI [of _ "js ''abcd.''"]) simp
qed

subsection \<open>Blank chunks\<close>

text \<open>
  Inside the loop a chunk is trimmed and appended only when it is not empty, so the
  loop never produces a blank chunk; the early return for a short text has no such
  test.
\<close>

lemma chunk_loop_not_blank:
  assumes "chunk_loop clean cs ov start chunks = Some res"
  shows "(\<forall>c \<in> set chunks. \<not> blank c) \<longrightarrow> (\<forall>c \<in> set res. \<not> blank c)"
proof (rule chunk_loop.raw_induct [where P = "\<lambda>clean cs ov start chunks res.
         (\<forall>c \<in> set chunks. \<not> blank c) \<longrightarrow> (\<forall>c \<in> set res. \<not> blank c)", OF _ assms], goal_cases)
  case (1 f clean cs ov start chunks res)
  note IH = "1"(1) and prems = "1"(2)
  define e where "e = snap_end clean cs start"
  define chunk where "chunk = trim (js_slice clean start e)"
  define chunks' where "chunks' = (if chunk \<noteq> [] then chunks @ [chunk] else chunks)"
  have step: "(if start < int (length clean) then
                (if int (length clean) - ov \<le> e - ov then Some chunks'
                 else f clean cs ov (e - ov) chunks')
               else Some chunks) = Some res"
    using prems unfolding Let_def e_def chunk_def chunks'_def .
  show ?case
  proof
    assume ok: "\<forall>c \<in> set chunks. \<not> blank c"
    have "chunk \<noteq> [] \<Longrightarrow> \<not> blank chunk"
      unfolding chunk_def by (rule trim_not_blank)
    with ok have ok': "\<forall>c \<in> set chunks'. \<not> blank c"
      unfolding chunks'_def by (cases "chunk = []") simp_all
    consider "res = chunks" | "res = chunks'" | "f clean cs ov (e - ov) chunks' = Some res"
      using step by (cases "start < int (length clean)"; cases "int (length clean) - ov \<le> e - ov") simp_all
    then show "\<forall>c \<in> set res. \<not> blank c"
    proof cases
      case 1 with ok show ?thesis by simp
    next
      case 2 with ok' show ?thesis by simp
    next
      case 3 from IH [OF this] ok' show ?thesis by blast
    qed
  qed
qed

lemma splitIntoChunks_not_blank:
  assumes "cleanText text \<noteq> []"
    and "splitIntoChunks text chunkSize overlap = Some chunks"
  shows "\<forall>c \<in> set chunks. \<not> blank c"
proof (cases "int (length (cleanText text)) \<le> chunkSize")
  case True
  with assms(2) have "chunks = [cleanText text]"
    by (simp add: splitIntoChunks_def Let_def)
  moreover have "\<not> blank (cleanText text)"
    using assms(1) trim_not_blank unfolding cleanText_def by blast
  ultimately show ?thesis by simp
next
  case False
  with assms(2) have "chunk_loop (cleanText text) chunkSize overlap 0 [] = Some chunks"
    by (simp add: splitIntoChunks_def Let_def)
  from chunk_loop_not_blank [OF this] show ?thesis by simp
qed

text \<open>
  A blank text is cleaned to the empty string, and the early return then hands the
  empty string back as a chunk, for every chunk size that is not negative.
\<close>

lemma set_replace_crlf: "set (replace_crlf s) \<subseteq> insert LF (set s)"
  by (induction s rule: replace_crlf.induct) auto

lemma set_collapse_newlines: "set (collapse_newlines s) \<subseteq> insert LF (set s)"
proof (induction s rule: collapse_newlines.induct)
  case 1
  then show ?case by simp
next
  case (2 x xs)
  show ?case
  proof (cases "x = LF")
    case True
    have run: "set (takeWhile (\<lambda>c. c = LF) (x # xs)) \<subseteq> set (x # xs)"
      using set_takeWhileD by fastforce
    have rest: "set (dropWhile (\<lambda>c. c = LF) (x # xs)) \<subseteq> set (x # xs)"
      using set_dropWhileD by fastforce
    from "2.IH"(1) [OF True refl refl] rest
    have "set (collapse_newlines (dropWhile (\<lambda>c. c = LF) (x # xs))) \<subseteq> insert LF (set (x # xs))"
      by blast
    with run True show ?thesis
      by (subst collapse_newlines.simps) (auto simp: Let_def)
  next
    case False
    with "2.IH"(2) show ?thesis by auto
  qed
qed

lemma trim_blank: "blank s \<Longrightarrow> trim s = []"
  by (auto simp: trim_def blank_def dest: set_dropWhileD)

lemma cleanText_blank: "blank s \<Longrightarrow> cleanText s = []"
proof -
  assume b: "blank s"
  have "is_ws LF" by (simp add: is_ws_def LF_def)
  with b set_replace_crlf [of s] have "blank (replace_crlf s)"
    by (auto simp: blank_def)
  with \<open>is_ws LF\<close> set_collapse_newlines [of "replace_crlf s"]
  have "blank (collapse_newlines (replace_crlf s))"
    by (auto simp: blank_def)
  then show ?thesis by (simp add: cleanText_def trim_blank)
qed

lemma blank_text_single_empty_chunk:
  "blank s \<Longrightarrow> 0 \<le> chunkSize \<Longrightarrow> splitIntoChunks s chunkSize overlap = Some [[]]"
  by (simp add: splitIntoChunks_def cleanText_blank)

text \<open>
  C2 fails on the empty text: with chunk size 500 and overlap 50 the early return
  hands back the empty string as the only chunk.
\<close>

theorem splitIntoChunks_blank_text: "splitIntoChunks [] 500 50 = Some [[]]"
  by (simp add: splitIntoChunks_def cleanText_def trim_def)

subsection \<open>Termination of the loop\<close>

text \<open>
  With a positive chunk size and an overlap of at most half of it the cursor grows in
  every iteration, and the loop returns.
\<close>

lemma chunk_loop_terminates:
  assumes "0 < cs" and "2 * ov \<le> cs"
  shows "\<exists>res. chunk_loop clean cs ov start chunks = Some res"
proof (induction "nat (int (length clean) - start)" arbitrary: start chunks rule: less_induct)
  case less
  define e where "e = snap_end clean cs start"
  define chunk where "chunk = trim (js_slice clean start e)"
  define chunks' where "chunks' = (if chunk \<noteq> [] then chunks @ [chunk] else chunks)"
  have unf: "chunk_loop clean cs ov start chunks =
      (if start < int (length clean) then
         (if int (length clean) - ov \<le> e - ov then Some chunks'
          else chunk_loop clean cs ov (e - ov) chunks')
       else Some chunks)"
    by (subst chunk_loop.simps) (simp add: Let_def e_def chunk_def chunks'_def)
  show ?case
  proof (cases "start < int (length clean) \<and> \<not> int (length clean) - ov \<le> e - ov")
    case True
    have "start < e - ov"
      using snap_end_strict_progress [OF assms(1), of start clean] assms(2) by (simp add: e_def)
    with True have "nat (int (length clean) - (e - ov)) < nat (int (length clean) - start)"
      by linarith
    from less [OF this] obtain res where "chunk_loop clean cs ov (e - ov) chunks' = Some res"
      by blast
    with True show ?thesis by (simp add: unf)
  next
    case False
    then show ?thesis by (auto simp: unf)
  qed
qed

lemma splitIntoChunks_terminates:
  assumes "0 < chunkSize" and "2 * overlap \<le> chunkSize"
  shows "\<exists>chunks. splitIntoChunks text chunkSize overlap = Some chunks"
  using chunk_loop_terminates [OF assms] by (simp add: splitIntoChunks_def Let_def)

text \<open>
  When an iteration leaves the cursor where it was and the exit test fails, the loop
  never returns.
\<close>

lemma chunk_loop_fixed_cursor:
  assumes inside: "start < int (length clean)"
    and fixed: "snap_end clean cs start - ov = start"
    and no_break: "start < int (length clean) - ov"
  shows "chunk_loop clean cs ov start chunks = None"
proof (cases "chunk_loop clean cs ov start chunks")
  case None
  then show ?thesis .
next
  case (Some res)
  have "\<not> (clean' = clean \<and> cs' = cs \<and> ov' = ov \<and> start' = start)"
    if "chunk_loop clean' cs' ov' start' chunks' = Some res'" for clean' cs' ov' start' chunks' res'
  proof (rule chunk_loop.raw_induct [where P = "\<lambda>clean' cs' ov' start' chunks' res'.
         \<not> (clean' = clean \<and> cs' = cs \<and> ov' = ov \<and> start' = start)", OF _ that], goal_cases)
    case (1 f clean' cs' ov' start' chunks' res')
    note IH = "1"(1) and prems = "1"(2)
    show ?case
    proof
      assume a: "clean' = clean \<and> cs' = cs \<and> ov' = ov \<and> start' = start"
      from prems a inside fixed no_break obtain chunks'' where "f clean cs ov start chunks'' = Some res'"
        by (simp add: Let_def)
      from IH [OF this] show False by simp
    qed
  qed
  from this [OF Some] show ?thesis by simp
qed

text \<open>
  C6: chunk size 1 and overlap 1 satisfy \<open>chunkSize > 0\<close> and \<open>overlap \<ge> 0\<close>, and on
  the text \<open>ab\<close> the cursor stays at 0: the call never returns.
\<close>

theorem splitIntoChunks_diverges: "splitIntoChunks (js ''ab'') 1 1 = None"
proof -
  have "snap_end [97, 98] 1 0 - 1 = 0"
    by (simp add: chunker_eval)
  then have "chunk_loop [97, 98] 1 1 0 [] = None"
    by (intro chunk_loop_fixed_cursor) simp_all
  then show ?thesis
    by (simp add: splitIntoChunks_def chunker_eval)
qed

text \<open>
  The same happens with an overlap below the chunk size but above half of it, when a
  paragraph break is accepted just past the midpoint.
\<close>

lemma paragraph_snap_loops_forever:
  "splitIntoChunks (js ''aaaaaaaa'' @ [LF, LF] @ js ''aaaaaaaaaaaa'') 10 8 = None"
proof -
  let ?clean = "js ''aaaaaaaa'' @ [LF, LF] @ js ''aaaaaaaaaaaa''"
  have c: "cleanText ?clean = ?clean"
    by (simp add: chunker_eval)
  have "snap_end ?clean 10 0 - 8 = 0"
    by (simp add: chunker_eval)
  then have "chunk_loop ?clean 10 8 0 [] = None"
    by (intro chunk_loop_fixed_cursor) simp_all
  then show ?thesis
    unfolding splitIntoChunks_def c by simp
qed

section \<open>The document parser\<close>

lemmas path_eval = path_components_def SEP_def DOT_def path_join_def startsWith_def
  toLowerCase_def path_extname_def path_basename_def ext_of_def supportedExtensions_def
  path_relative_def path_basename_ext_def

subsection \<open>Chunk numbering\<close>

text \<open>
  C5: when \<open>parseAndChunkDocument\<close> returns the chunks of a document, their
  \<open>chunkIndex\<close> values are \<open>0, 1, ..., N - 1\<close> in this order, where \<open>N\<close> is the number of
  chunks, and every chunk reports \<open>totalChunks = N\<close>.
\<close>

theorem chunk_indices_dense:
  assumes "parseAndChunkDocument rt cfg filePath basePath = Some (Inr chunks)"
  shows "map (\<lambda>c. chunkIndex (metadata c)) chunks = [0..<length chunks] \<and>
         (\<forall>c \<in> set chunks. totalChunks (metadata c) = length chunks)"
proof -
  from assms obtain body where parsed: "parseDocument rt filePath = Inr body"
    by (auto simp: parseAndChunkDocument_def split: sum.splits)
  with assms obtain textChunks where
    split: "splitIntoChunks body (cfg_chunkSize cfg) (cfg_chunkOverlap cfg) = Some textChunks"
    by (auto simp: parseAndChunkDocument_def Let_def split: option.splits)
  define mk where "mk = (\<lambda>i chunk.
     \<lparr> chunk_id = generateDocumentId rt filePath @ js ''-chunk-'' @ show_nat i,
       content = chunk,
       metadata = \<lparr> documentId = generateDocumentId rt filePath,
         documentName = path_basename filePath, documentPath = filePath, chunkIndex = i,
         totalChunks = length textChunks, category = extractCategory filePath basePath,
         title = Some (extractTitle body (path_basename filePath)) \<rparr> \<rparr>)"
  have idx: "chunkIndex (metadata (mk i c)) = i"
    and tot: "totalChunks (metadata (mk i c)) = length textChunks" for i c
    by (simp_all add: mk_def)
  from assms parsed split have ch: "chunks = map (\<lambda>(i, chunk). mk i chunk) (enumerate 0 textChunks)"
    by (simp add: parseAndChunkDocument_def Let_def mk_def)
  then have len: "length chunks = length textChunks" by simp
  have "map (\<lambda>c. chunkIndex (metadata c)) chunks = map fst (enumerate 0 textChunks)"
    unfolding ch by (simp add: case_prod_unfold comp_def idx)
  then have "map (\<lambda>c. chunkIndex (metadata c)) chunks = [0..<length chunks]"
    by (simp add: len)
  moreover have "\<forall>c \<in> set chunks. totalChunks (metadata c) = length chunks"
    unfolding len unfolding ch by (auto simp: tot)
  ultimately show ?thesis by blast
qed

theorem chunk_indices_dense_witness:
  "parseAndChunkDocument sample_runtime sample_config (js ''/docs/faq/returns.TXT'') (js ''/docs'') =
     Some (Inr [sample_chunk 0 (js ''abcd.''), sample_chunk 1 (js ''efg''), sample_chunk 2 (js ''h'')]) \<and>
   map (\<lambda>c. chunkIndex (metadata c))
     [sample_chunk 0 (js ''abcd.''), sample_chunk 1 (js ''efg''), sample_chunk 2 (js ''h'')] = [0, 1, 2] \<and>
   totalChunks (metadata (sample_chunk 0 (js ''abcd.''))) = 3 \<and>
   totalChunks (metadata (sample_chunk 1 (js ''efg''))) = 3 \<and>
   totalChunks (metadata (sample_chunk 2 (js ''h''))) = 3"
proof -
  have run: "parseAndChunkDocument sample_runtime sample_config (js ''/docs/faq/returns.TXT'')
      (js ''/docs'') =
     Some (Inr [sample_chunk 0 (js ''abcd.''), sample_chunk 1 (js ''efg''), sample_chunk 2 (js ''h'')])"
    apply (simp add: parseAndChunkDocument_def parseDocument_def sample_runtime_def
        sample_config_def readFileSync_def sample_tree_def path_eval generateDocumentId_def
        extractCategory_def extractTitle_def splitIntoChunks_def chunker_eval Let_def)
    apply (subst chunk_loop.simps, simp add: chunker_eval)
    apply (subst chunk_loop.simps, simp add: chunker_eval)
    apply (subst chunk_loop.simps, simp add: chunker_eval sample_chunk_def show_nat.simps)
    done
  from chunk_indices_dense [OF run] run show ?thesis by (simp add: upt_rec)
qed

subsection \<open>The document locator\<close>

lemma scan_total:
  "scannable node \<Longrightarrow> \<exists>docs. scanDir p node acc = Inr docs"
  "scannable_entries es \<Longrightarrow> \<exists>docs. scanEntries p es acc = Inr docs"
proof (induction p node acc and p es acc rule: scanDir_scanEntries.induct)
  case (5 currentPath name node rest documents)
  then show ?case
    by (auto simp: Let_def split: sum.splits)
qed auto

text \<open>
  C8, as amended: \<open>findDocuments\<close> is a function of the directory tree alone (it has no
  effect on it). A root that does not exist yields the empty list; a root that can be
  scanned yields a list; a root that exists but cannot be read throws the error of
  \<open>readdirSync\<close>.
\<close>

theorem findDocuments_outcomes:
  "(fs_lookup tree (path_components dirPath) = None \<longrightarrow> findDocuments tree dirPath = Inr []) \<and>
   (\<forall>node. fs_lookup tree (path_components dirPath) = Some node \<and> scannable node \<longrightarrow>
      (\<exists>docs. findDocuments tree dirPath = Inr docs)) \<and>
   (\<forall>entries. fs_lookup tree (path_components dirPath) = Some (Directory False entries) \<longrightarrow>
      findDocuments tree dirPath = Inl (FsError (js ''EACCES'') dirPath))"
  using scan_total(1) by (auto simp: findDocuments_def)

theorem findDocuments_outcomes_witness:
  "findDocuments sample_tree (js ''/missing'') = Inr [] \<and>
   (\<exists>docs. findDocuments sample_tree (js ''/docs'') = Inr docs) \<and>
   findDocuments sample_tree (js ''/locked'') = Inl (FsError (js ''EACCES'') (js ''/locked''))"
proof -
  have missing: "fs_lookup sample_tree (path_components (js ''/missing'')) = None"
    by (simp add: sample_tree_def path_eval)
  have docs: "\<exists>node. fs_lookup sample_tree (path_components (js ''/docs'')) = Some node \<and> scannable node"
    by (simp add: sample_tree_def path_eval)
  have locked: "fs_lookup sample_tree (path_components (js ''/locked'')) = Some (Directory False [])"
    by (simp add: sample_tree_def path_eval)
  from findDocuments_outcomes [of sample_tree "js ''/missing''"] missing
  have 1: "findDocuments sample_tree (js ''/missing'') = Inr []" by blast
  from findDocuments_outcomes [of sample_tree "js ''/docs''"] docs
  have 2: "\<exists>docs. findDocuments sample_tree (js ''/docs'') = Inr docs" by blast
  from findDocuments_outcomes [of sample_tree "js ''/locked''"] locked
  have 3: "findDocuments sample_tree (js ''/locked'') = Inl (FsError (js ''EACCES'') (js ''/locked''))"
    by blast
  from 1 2 3 show ?thesis by blast
qed

text \<open>An unreadable root makes \<open>findDocuments\<close> throw.\<close>

theorem findDocuments_unreadable_root_counterexample:
  "findDocuments sample_tree (js ''/locked'') = Inl (FsError (js ''EACCES'') (js ''/locked''))"
  by (simp add: findDocuments_def sample_tree_def path_eval)

lemma findDocuments_sample:
  "findDocuments sample_tree (js ''/docs'') =
     Inr [js ''/docs/faq/returns.TXT'', js ''/docs/notes.md'']"
  by (simp add: findDocuments_def sample_tree_def path_eval Let_def)

section \<open>The embedding client\<close>

text \<open>
  Sorting by a key puts a list whose keys are distinct into one order only, whatever
  order it arrived in.
\<close>

lemma filter_distinct_key:
  "distinct (map f xs) \<Longrightarrow> k \<in> set xs \<Longrightarrow> filter (\<lambda>x. f k = f x) xs = [k]"
proof (induction xs)
  case Nil
  then show ?case by simp
next
  case (Cons x xs)
  show ?case
  proof (cases "k = x")
    case True
    with Cons.prems have "\<forall>y \<in> set xs. f x \<noteq> f y" by auto
    then have "filter (\<lambda>y. f x = f y) xs = []" by (simp add: filter_empty_conv)
    with True show ?thesis by simp
  next
    case False
    with Cons.prems have kx: "k \<in> set xs" by simp
    then have "f k \<in> f ` set xs" by (rule imageI)
    with Cons.prems have "f k \<noteq> f x" by auto
    with Cons kx show ?thesis by simp
  qed
qed

lemma sort_key_distinct_perm:
  assumes "mset ys = mset xs" and "distinct (map f ys)" and "sorted (map f ys)"
  shows "sort_key f xs = ys"
proof (rule properties_for_sort_key [OF assms(1) _ assms(3)])
  fix k assume k: "k \<in> set ys"
  from assms(1) have "mset (map f ys) = mset (map f xs)" by simp
  with assms(2) have dx: "distinct (map f xs)" by (metis mset_eq_imp_distinct_iff)
  from assms(1) k have kx: "k \<in> set xs" by (metis mset_eq_setD)
  show "filter (\<lambda>x. f k = f x) ys = filter (\<lambda>x. f k = f x) xs"
    by (simp add: filter_distinct_key [OF assms(2) k] filter_distinct_key [OF dx kx])
qed

lemma map_index_labelled: "map index (labelled emb batch) = map int [0..<length batch]"
proof -
  have "map index (labelled emb batch) = map (int \<circ> fst) (enumerate 0 batch)"
    by (simp add: labelled_def case_prod_unfold comp_def)
  also have "\<dots> = map int (map fst (enumerate 0 batch))"
    by (simp only: map_map)
  finally show ?thesis by simp
qed

lemma map_embedding_labelled: "map embedding (labelled emb batch) = map emb batch"
proof -
  have "map embedding (labelled emb batch) = map (emb \<circ> snd) (enumerate 0 batch)"
    by (simp add: labelled_def case_prod_unfold comp_def)
  also have "\<dots> = map emb (map snd (enumerate 0 batch))"
    by (simp only: map_map)
  finally show ?thesis by simp
qed

lemma sort_shuffled_batch:
  assumes "mset items = mset (labelled emb batch)"
  shows "map embedding (sort_key index items) = map emb batch"
proof -
  have d: "distinct (map index (labelled emb batch))"
    by (simp add: map_index_labelled distinct_map)
  have s: "sorted (map index (labelled emb batch))"
    by (simp add: map_index_labelled sorted_map) 
  have "sort_key index items = labelled emb batch"
    using assms d s by (intro sort_key_distinct_perm) auto
  then show ?thesis by (simp add: map_embedding_labelled)
qed

lemma createEmbeddings_loop_order:
  assumes "\<forall>n batch. \<exists>items. embed_backend rt n batch = EmbedOk items \<and>
             mset items = mset (labelled emb batch)"
  shows "fst (createEmbeddings_loop rt texts i acc w) = Inr (acc @ map emb (drop i texts))"
  using assms
proof (induction rt texts i acc w rule: createEmbeddings_loop.induct)
  case (1 rt texts i acc w)
  note backend = "1.prems"
  show ?case
  proof (cases "i < length texts")
    case False
    then show ?thesis by (subst createEmbeddings_loop.simps) simp
  next
    case True
    define batch where "batch = take 100 (drop i texts)"
    from backend obtain items where
      ok: "embed_backend rt (length (embed_calls w)) batch = EmbedOk items"
      and perm: "mset items = mset (labelled emb batch)" by blast
    have "fst (createEmbeddings_loop rt texts i acc w) =
          fst (createEmbeddings_loop rt texts (i + 100)
                 (acc @ map embedding (sort_key index items))
                 (w\<lparr>embed_calls := embed_calls w @ [batch]\<rparr>))"
      using True ok by (subst createEmbeddings_loop.simps) (simp add: batch_def Let_def)
    also have "\<dots> = Inr ((acc @ map embedding (sort_key index items)) @ map emb (drop (i + 100) texts))"
      using True ok backend by (intro "1.IH") (simp_all add: batch_def)
    also have "map embedding (sort_key index items) = map emb (take 100 (drop i texts))"
      using sort_shuffled_batch [OF perm] by (simp add: batch_def)
    also have "(acc @ map emb (take 100 (drop i texts))) @ map emb (drop (i + 100) texts) =
               acc @ map emb (drop i texts)"
    proof -
      have "drop (i + 100) texts = drop 100 (drop i texts)" by (simp add: add.commute)
      moreover have "take 100 (drop i texts) @ drop 100 (drop i texts) = drop i texts"
        by (rule append_take_drop_id)
      ultimately have "map emb (take 100 (drop i texts)) @ map emb (drop (i + 100) texts) =
                       map emb (drop i texts)"
        by (metis map_append)
      then show ?thesis by simp
    qed
    finally show ?thesis .
  qed
qed

text \<open>
  C3: whatever order the endpoint gives the items of each batch response,
  \<open>createEmbeddings\<close> returns the vectors in the order of the texts, for any number of
  texts and so across any number of batches.
\<close>

theorem createEmbeddings_input_order:
  assumes "\<forall>n batch. \<exists>items. embed_backend rt n batch = EmbedOk items \<and>
             mset items = mset (labelled emb batch)"
  shows "fst (createEmbeddings rt texts w) = Inr (map emb texts)"
  using createEmbeddings_loop_order [OF assms, of texts 0 "[]" w]
  by (simp add: createEmbeddings_def)

theorem createEmbeddings_input_order_witness:
  "(\<forall>n batch. \<exists>items. embed_backend sample_runtime n batch = EmbedOk items \<and>
      mset items = mset (labelled sample_embedding batch)) \<and>
   embed_backend sample_runtime 0 [js ''a'', js ''bb'', js ''ccc''] =
     EmbedOk [\<lparr>embedding = [3], index = 2\<rparr>, \<lparr>embedding = [2], index = 1\<rparr>,
              \<lparr>embedding = [1], index = 0\<rparr>] \<and>
   fst (createEmbeddings sample_runtime [js ''a'', js ''bb'', js ''ccc''] empty_world) =
     Inr [[1], [2], [3]]"
proof -
  have shuffled: "\<forall>n batch. \<exists>items. embed_backend sample_runtime n batch = EmbedOk items \<and>
      mset items = mset (labelled sample_embedding batch)"
    by (simp add: sample_runtime_def)
  have response: "embed_backend sample_runtime 0 [js ''a'', js ''bb'', js ''ccc''] =
     EmbedOk [\<lparr>embedding = [3], index = 2\<rparr>, \<lparr>embedding = [2], index = 1\<rparr>,
              \<lparr>embedding = [1], index = 0\<rparr>]"
    by (simp add: sample_runtime_def labelled_def sample_embedding_def)
  from createEmbeddings_input_order [OF shuffled, of "[js ''a'', js ''bb'', js ''ccc'']" empty_world]
  have "fst (createEmbeddings sample_runtime [js ''a'', js ''bb'', js ''ccc''] empty_world) =
     Inr [[1], [2], [3]]"
    by (simp add: sample_embedding_def)
  with shuffled response show ?thesis by blast
qed

section \<open>The vector index\<close>

lemma collectionExists_iff:
  "collectionExists cfg w \<longleftrightarrow>
     online (store w) \<and> cfg_collectionName cfg \<in> fst ` set (collections (store w))"
  by (auto simp: collectionExists_def getCollections_def list_ex_iff)

lemma update_collection_last:
  assumes "name \<notin> fst ` set cs"
  shows "update_collection name f (s\<lparr>collections := cs @ [(name, c)]\<rparr>) =
         s\<lparr>collections := cs @ [(name, f c)]\<rparr>"
proof -
  have "map (\<lambda>(n, c). if n = name then (n, f c) else (n, c)) cs = cs"
    using assms by (induction cs) auto
  then show ?thesis by (simp add: update_collection_def)
qed

lemma createCollection_absent:
  assumes "online (store w)" and "\<not> collectionExists cfg w"
  shows "createCollection cfg w =
     (Inr (), w\<lparr>store := (store w)\<lparr>collections := collections (store w) @
        [(cfg_collectionName cfg,
          \<lparr> vectors_size = cfg_embeddingDimension cfg, vectors_distance = js ''Cosine'',
            default_segment_number = 2, replication_factor = 1,
            payload_indexes = [(js ''documentId'', js ''keyword''), (js ''category'', js ''keyword'')],
            points = [] \<rparr>)]\<rparr>\<rparr>)"
proof -
  let ?name = "cfg_collectionName cfg"
  from assms have absent: "?name \<notin> fst ` set (collections (store w))"
    by (simp add: collectionExists_iff)
  have 1: "q_createCollection ?name (new_collection cfg) (store w) =
      (Inr (), (store w)\<lparr>collections := collections (store w) @ [(?name, new_collection cfg)]\<rparr>)"
    using assms(1) absent by (simp add: q_createCollection_def)
  have 2: "createPayloadIndex ?name field schema
        ((store w)\<lparr>collections := collections (store w) @ [(?name, c)]\<rparr>) =
      (Inr (), (store w)\<lparr>collections := collections (store w) @
         [(?name, c\<lparr>payload_indexes := filter (\<lambda>ix. fst ix \<noteq> field) (payload_indexes c) @ [(field, schema)]\<rparr>)]\<rparr>)"
    for field schema c
    using assms(1) absent by (simp add: createPayloadIndex_def update_collection_last)
  show ?thesis
    using assms(2) by (simp add: createCollection_def 1 2) (simp add: new_collection_def)
qed

text \<open>
  C7: \<open>createCollection\<close> on a collection that exists returns normally and leaves the
  state as it is; a second call in a row leaves the state that the first call left;
  on a reachable store without the collection it appends the collection with the
  configured dimension, the cosine metric and the keyword indexes on \<open>documentId\<close> and
  \<open>category\<close>.
\<close>

theorem createCollection_idempotent:
  "(collectionExists cfg w \<longrightarrow> createCollection cfg w = (Inr (), w)) \<and>
   snd (createCollection cfg (snd (createCollection cfg w))) = snd (createCollection cfg w) \<and>
   (online (store w) \<and> \<not> collectionExists cfg w \<longrightarrow>
      createCollection cfg w =
        (Inr (), w\<lparr>store := (store w)\<lparr>collections := collections (store w) @
           [(cfg_collectionName cfg,
             \<lparr> vectors_size = cfg_embeddingDimension cfg, vectors_distance = js ''Cosine'',
               default_segment_number = 2, replication_factor = 1,
               payload_indexes = [(js ''documentId'', js ''keyword''), (js ''category'', js ''keyword'')],
               points = [] \<rparr>)]\<rparr>\<rparr>))"
proof (intro conjI impI)
  assume "collectionExists cfg w"
  then show "createCollection cfg w = (Inr (), w)" by (simp add: createCollection_def)
next
  assume "online (store w) \<and> \<not> collectionExists cfg w"
  then show "createCollection cfg w =
        (Inr (), w\<lparr>store := (store w)\<lparr>collections := collections (store w) @
           [(cfg_collectionName cfg,
             \<lparr> vectors_size = cfg_embeddingDimension cfg, vectors_distance = js ''Cosine'',
               default_segment_number = 2, replication_factor = 1,
               payload_indexes = [(js ''documentId'', js ''keyword''), (js ''category'', js ''keyword'')],
               points = [] \<rparr>)]\<rparr>\<rparr>)"
    by (simp add: createCollection_absent)
next
  show "snd (createCollection cfg (snd (createCollection cfg w))) = snd (createCollection cfg w)"
  proof (cases "collectionExists cfg w")
    case True
    then show ?thesis by (simp add: createCollection_def)
  next
    case False
    show ?thesis
    proof (cases "online (store w)")
      case True
      let ?w' = "snd (createCollection cfg w)"
      have "collectionExists cfg ?w'"
        using True by (simp add: createCollection_absent [OF True False] collectionExists_iff)
      then have "createCollection cfg ?w' = (Inr (), ?w')" by (simp add: createCollection_def)
      then show ?thesis by simp
    next
      case False
      then have "createCollection cfg w = (Inl unreachable, w)"
        by (simp add: createCollection_def collectionExists_iff q_createCollection_def)
      then show ?thesis by simp
    qed
  qed
qed

theorem createCollection_idempotent_witness:
  "createCollection sample_config empty_world = (Inr (), created_world) \<and>
   collectionExists sample_config created_world \<and>
   createCollection sample_config created_world = (Inr (), created_world) \<and>
   snd (createCollection sample_config (snd (createCollection sample_config empty_world))) =
     created_world"
proof -
  have absent: "online (store empty_world) \<and> \<not> collectionExists sample_config empty_world"
    by (simp add: collectionExists_iff empty_world_def)
  have present: "collectionExists sample_config created_world"
    by (simp add: collectionExists_iff created_world_def sample_config_def)
  from createCollection_idempotent [of sample_config empty_world] absent
  have 1: "createCollection sample_config empty_world = (Inr (), created_world)"
    by (simp add: empty_world_def created_world_def sample_config_def)
  from createCollection_idempotent [of sample_config created_world] present
  have 2: "createCollection sample_config created_world = (Inr (), created_world)"
    by blast
  from createCollection_idempotent [of sample_config empty_world] 1
  have 3: "snd (createCollection sample_config (snd (createCollection sample_config empty_world))) =
     created_world" by simp
  from 1 2 3 present show ?thesis by blast
qed

text \<open>
  C10: when the collection does not exist, \<open>listDocuments\<close> and \<open>listCategories\<close>
  return the empty list and do not throw.
\<close>

theorem listDocuments_absent_collection:
  "\<not> collectionExists cfg w \<Longrightarrow> listDocuments cfg w = Inr [] \<and> listCategories cfg w = Inr []"
  by (simp add: listDocuments_def listCategories_def)

theorem listDocuments_absent_collection_witness:
  "\<not> collectionExists sample_config empty_world \<and>
   listDocuments sample_config empty_world = Inr [] \<and>
   listCategories sample_config empty_world = Inr []"
proof -
  have absent: "\<not> collectionExists sample_config empty_world"
    by (simp add: collectionExists_iff empty_world_def)
  from listDocuments_absent_collection [OF absent] absent show ?thesis by blast
qed

section \<open>Document reassembly\<close>

text \<open>
  C4: whatever order the store returns the chunks of a document in,
  \<open>getDocumentChunks\<close> hands them on sorted ascending by \<open>chunkIndex\<close> (the same list
  for every order of the same chunks, when their indices are distinct), and
  \<open>executeGetInstruction\<close> joins their contents with a blank line between them.
\<close>

theorem getDocument_sorted_joined:
  assumes "scroll (cfg_collectionName cfg) (MustMatch (js ''documentId'') docId) 1000 None (store w) =
             Inr (results, nxt)"
  shows "\<exists>chunks. getDocumentChunks cfg docId w = Inr chunks \<and>
           sorted (map r_chunkIndex chunks) \<and>
           mset chunks = mset (map to_result results) \<and>
           (\<forall>results'. mset results' = mset results \<and>
               distinct (map (\<lambda>r. p_chunkIndex (point_payload r)) results) \<longrightarrow>
               sort_key r_chunkIndex (map to_result results') = chunks) \<and>
           (chunks \<noteq> [] \<longrightarrow>
              executeGetInstruction cfg docId w =
                \<lparr> tr_success = True,
                  tr_output = Some (header (hd chunks) @ [LF, LF] @ js ''---'' @ [LF, LF] @
                                    js_join [LF, LF] (map r_content chunks)),
                  tr_error = None \<rparr>)"
proof -
  define chunks where "chunks = sort_key r_chunkIndex (map to_result results)"
  have get: "getDocumentChunks cfg docId w = Inr chunks"
    using assms by (simp add: getDocumentChunks_def chunks_def)
  have srt: "sorted (map r_chunkIndex chunks)"
    by (simp add: chunks_def)
  have perm: "mset chunks = mset (map to_result results)"
    by (simp add: chunks_def)
  have order: "sort_key r_chunkIndex (map to_result results') = chunks"
    if same: "mset results' = mset results"
      and dist: "distinct (map (\<lambda>r. p_chunkIndex (point_payload r)) results)" for results'
  proof (rule sort_key_distinct_perm [OF _ _ srt])
    show "mset chunks = mset (map to_result results')"
      using perm same by simp
    have "map (\<lambda>r. p_chunkIndex (point_payload r)) results = map r_chunkIndex (map to_result results)"
      by (simp add: to_result_def comp_def)
    with dist have "distinct (map r_chunkIndex (map to_result results))" by simp
    moreover have "mset (map r_chunkIndex chunks) = mset (map r_chunkIndex (map to_result results))"
      using perm by (metis mset_map)
    ultimately show "distinct (map r_chunkIndex chunks)"
      by (metis mset_eq_imp_distinct_iff)
  qed
  have out: "executeGetInstruction cfg docId w =
                \<lparr> tr_success = True,
                  tr_output = Some (header (hd chunks) @ [LF, LF] @ js ''---'' @ [LF, LF] @
                                    js_join [LF, LF] (map r_content chunks)),
                  tr_error = None \<rparr>" if "chunks \<noteq> []"
    using that get by (cases chunks) (simp_all add: executeGetInstruction_def fullContent_def)
  from get srt perm order out show ?thesis by blast
qed

theorem getDocument_sorted_joined_witness:
  "scroll (cfg_collectionName sample_config) (MustMatch (js ''documentId'') (js ''d1'')) 1000 None
     (store indexed_world) =
     Inr ([sample_point (js ''p1'') (js ''d1'') 2 3 (js ''three''),
           sample_point (js ''p3'') (js ''d1'') 0 3 (js ''one''),
           sample_point (js ''p4'') (js ''d1'') 1 3 (js ''two'')], None) \<and>
   (\<exists>chunks. getDocumentChunks sample_config (js ''d1'') indexed_world = Inr chunks \<and>
      sorted (map r_chunkIndex chunks) \<and>
      map r_chunkIndex chunks = [0, 1, 2] \<and>
      map r_content chunks = [js ''one'', js ''two'', js ''three''] \<and>
      tr_output (executeGetInstruction sample_config (js ''d1'') indexed_world) =
        Some (header (hd chunks) @ [LF, LF] @ js ''---'' @ [LF, LF] @
              js ''one'' @ [LF, LF] @ js ''two'' @ [LF, LF] @ js ''three''))"
proof -
  have returned: "scroll (cfg_collectionName sample_config) (MustMatch (js ''documentId'') (js ''d1''))
      1000 None (store indexed_world) =
     Inr ([sample_point (js ''p1'') (js ''d1'') 2 3 (js ''three''),
           sample_point (js ''p3'') (js ''d1'') 0 3 (js ''one''),
           sample_point (js ''p4'') (js ''d1'') 1 3 (js ''two'')], None)"
    by (simp add: scroll_def indexed_world_def sample_config_def field_value_def sample_point_def)
  from getDocument_sorted_joined [OF returned] obtain chunks where
    get: "getDocumentChunks sample_config (js ''d1'') indexed_world = Inr chunks"
    and srt: "sorted (map r_chunkIndex chunks)"
    and out: "chunks \<noteq> [] \<longrightarrow>
              executeGetInstruction sample_config (js ''d1'') indexed_world =
                \<lparr> tr_success = True,
                  tr_output = Some (header (hd chunks) @ [LF, LF] @ js ''---'' @ [LF, LF] @
                                    js_join [LF, LF] (map r_content chunks)),
                  tr_error = None \<rparr>"
    by blast
  have "getDocumentChunks sample_config (js ''d1'') indexed_world =
     Inr (map to_result
           [sample_point (js ''p3'') (js ''d1'') 0 3 (js ''one''),
            sample_point (js ''p4'') (js ''d1'') 1 3 (js ''two''),
            sample_point (js ''p1'') (js ''d1'') 2 3 (js ''three'')])"
    unfolding getDocumentChunks_def returned by (simp add: to_result_def sample_point_def)
  with get have chunks: "chunks = map to_result
           [sample_point (js ''p3'') (js ''d1'') 0 3 (js ''one''),
            sample_point (js ''p4'') (js ''d1'') 1 3 (js ''two''),
            sample_point (js ''p1'') (js ''d1'') 2 3 (js ''three'')]"
    by simp
  have idx: "map r_chunkIndex chunks = [0, 1, 2]"
    and bodies: "map r_content chunks = [js ''one'', js ''two'', js ''three'']"
    by (simp_all add: chunks to_result_def sample_point_def)
  from chunks have "chunks \<noteq> []" by simp
  with out bodies have joined: "tr_output (executeGetInstruction sample_config (js ''d1'') indexed_world) =
        Some (header (hd chunks) @ [LF, LF] @ js ''---'' @ [LF, LF] @
              js ''one'' @ [LF, LF] @ js ''two'' @ [LF, LF] @ js ''three'')"
    by simp
  have "\<exists>chunks. getDocumentChunks sample_config (js ''d1'') indexed_world = Inr chunks \<and>
      sorted (map r_chunkIndex chunks) \<and>
      map r_chunkIndex chunks = [0, 1, 2] \<and>
      map r_content chunks = [js ''one'', js ''two'', js ''three''] \<and>
      tr_output (executeGetInstruction sample_config (js ''d1'') indexed_world) =
        Some (header (hd chunks) @ [LF, LF] @ js ''---'' @ [LF, LF] @
              js ''one'' @ [LF, LF] @ js ''two'' @ [LF, LF] @ js ''three'')"
    by (rule exI [of _ chunks]) (intro conjI get srt idx bodies joined)
  with returned show ?thesis by (rule conjI)
qed

section \<open>The ingestion tool\<close>

lemma deleteCollection_embed_calls:
  "embed_calls (snd (deleteCollection cfg w)) = embed_calls w"
  by (simp add: deleteCollection_def split: prod.splits)

text \<open>
  C1, as amended: when no document is found under the folder, \<open>main\<close> ends with
  \<open>process.exit(1)\<close>; it reports no statistics, and up to then it has only deleted the
  collection if \<open>--reset\<close> was given: the collection is not created and the embedding
  endpoint is not called.
\<close>

theorem main_no_documents:
  assumes "findDocuments (fs rt)
             (path_resolve rt (if 2 < length argv \<and> argv ! 2 \<noteq> [] then argv ! 2
                               else cfg_documentsPath cfg)) = Inr []"
  shows "\<exists>w'. main rt cfg argv w = Some (Exited 1, w') \<and>
           embed_calls w' = embed_calls w \<and>
           w' = (if js ''--reset'' \<in> set argv then snd (deleteCollection cfg w) else w)"
proof (cases "js ''--reset'' \<in> set argv")
  case True
  obtain r w1 where d: "deleteCollection cfg w = (r, w1)" by (cases "deleteCollection cfg w")
  have "embed_calls w1 = embed_calls w"
    using deleteCollection_embed_calls [of cfg w] d by simp
  moreover have "main rt cfg argv w = Some (Exited 1, w1)"
    using assms True d by (cases r) (simp_all add: main_def Let_def)
  ultimately show ?thesis using True d by simp
next
  case False
  with assms have "main rt cfg argv w = Some (Exited 1, w)"
    by (simp add: main_def Let_def)
  with False show ?thesis by simp
qed

theorem main_no_documents_witness:
  "findDocuments (fs sample_runtime) (js ''/empty'') = Inr [] \<and>
   main sample_runtime sample_config [js ''node'', js ''ingest.ts'', js ''/empty''] empty_world =
     Some (Exited 1, empty_world) \<and>
   embed_calls empty_world = []"
proof -
  have found: "findDocuments (fs sample_runtime) (js ''/empty'') = Inr []"
    by (simp add: sample_runtime_def findDocuments_def sample_tree_def path_eval)
  then have hyp: "findDocuments (fs sample_runtime)
     (path_resolve sample_runtime
        (if 2 < length [js ''node'', js ''ingest.ts'', js ''/empty''] \<and>
            [js ''node'', js ''ingest.ts'', js ''/empty''] ! 2 \<noteq> []
         then [js ''node'', js ''ingest.ts'', js ''/empty''] ! 2
         else cfg_documentsPath sample_config)) = Inr []"
    by (simp add: sample_runtime_def)
  from main_no_documents [OF hyp, of empty_world] found show ?thesis
    by (simp add: empty_world_def)
qed

text \<open>On an empty folder \<open>main\<close> exits with status 1 instead of returning statistics.\<close>

theorem main_empty_folder_counterexample:
  "main sample_runtime sample_config [js ''node'', js ''ingest.ts'', js ''/empty''] empty_world =
     Some (Exited 1, empty_world)"
  by (simp add: main_def Let_def sample_runtime_def findDocuments_def sample_tree_def path_eval)

end
